theory Spec2Isabelle
  imports Complex_Main
begin

section \<open>The match server (server/index.js)\<close>

text \<open>
  JavaScript numbers are modelled by \<open>real\<close> (positions, health, damage) and by \<open>int\<close>
  where the code only ever stores whole numbers (scores, the countdown in seconds).
  Rounding of IEEE doubles is not modelled. Socket ids, room ids and item ids are strings.
\<close>

subsection \<open>Data model\<close>

text \<open>The object literal stored in \<open>room.players[socket.id]\<close> (joinRoomInternal).\<close>

record player =
  p_x :: real
  p_y :: real
  p_angle :: real
  p_health :: real
  p_id :: string
  p_isDead :: bool
  p_name :: string

text \<open>\<open>itemData\<close> of the playerHit handler; type 50 is a health orb, 51 an ammo box.\<close>

record item =
  i_id :: string
  i_x :: real
  i_y :: real
  i_type :: nat

datatype status = WAITING | PLAYING | FINISHED

text \<open>
  A room object. \<open>scores\<close> is an association list in the iteration order of the
  JavaScript object (insertion order of the socket ids), because finishGame iterates
  over it; \<open>players\<close> and \<open>items\<close> are only looked up by key.
  \<open>timerInterval\<close> holds the handle returned by setInterval (null is \<open>None\<close>).
\<close>

record room =
  r_id :: string
  players :: "string \<rightharpoonup> player"
  items :: "string \<rightharpoonup> item"
  timeLeft :: int
  status :: status
  scores :: "(string \<times> int) list"
  timerInterval :: "nat option"

text \<open>
  The process state: the global \<open>rooms\<close> object, and the setInterval timers that are
  still running, each with the room id held by its callback.
\<close>

record server =
  rooms :: "string \<rightharpoonup> room"
  intervals :: "(nat \<times> string) list"
  nextHandle :: nat

text \<open>Payloads of the server-to-client events.\<close>

datatype payload =
    HealthUpdate string real "bool option"
  | PlayerDied string string "(string \<times> int) list"
  | PlayerMoved string real real real
  | PlayerRespawn real real
  | ItemSpawn item
  | ItemRemoved string
  | ItemCollected nat
  | TimeUpdate int
  | GameOver "string option" string "(string \<times> int) list"
  | RoomCreated string
  | PlayerJoined string string "string \<rightharpoonup> player" int
  | RoomListUpdate
  | ErrorMsg string

text \<open>
  Where an event is sent: \<open>io.to(c).emit\<close> is \<open>To c\<close> (a room id, or a socket id, since
  every socket is alone in the channel named by its own id), \<open>socket.emit\<close> is
  \<open>ToSocket\<close> of the calling socket, \<open>io.emit\<close> is \<open>ToAll\<close>.
\<close>

datatype target = To string | ToSocket string | ToAll

type_synonym emission = "target \<times> payload"

text \<open>
  One-shot callbacks registered with setTimeout, with the variables their closures
  capture. A handler returns them with their delay in milliseconds.
\<close>

datatype timer = Respawn string string | ItemExpire string string

type_synonym outcome = "server \<times> emission list \<times> (nat \<times> timer) list"

subsection \<open>The playerHit handler\<close>

text \<open>\<open>if (room.scores[shooterId] !== undefined) room.scores[shooterId] += 1\<close>\<close>

definition scoreKill :: "string \<Rightarrow> (string \<times> int) list \<Rightarrow> (string \<times> int) list" where
  "scoreKill shooterId sc =
     (if map_of sc shooterId \<noteq> None
      then map (\<lambda>(k, v). if k = shooterId then (k, v + 1) else (k, v)) sc
      else sc)"

text \<open>The body of \<open>if (victim.health <= 0) { ... }\<close> (lines 171-219).\<close>

definition hitDeath ::
  "string \<Rightarrow> string \<Rightarrow> string \<Rightarrow> room \<Rightarrow> player \<Rightarrow> room \<times> emission list \<times> (nat \<times> timer) list" where
  "hitDeath roomId shooterId victimId rm victim =
     (let sc = scoreKill shooterId (scores rm);
          victim' = victim\<lparr>p_isDead := True\<rparr>;
          rm' = rm\<lparr>scores := sc, players := (players rm)(victimId \<mapsto> victim')\<rparr>
      in (rm',
          [(To roomId, HealthUpdate victimId 0 (Some True)),
           (To roomId, PlayerDied victimId shooterId sc)],
          [(3000, Respawn roomId victimId)]))"

text \<open>
  The block under \<open>// SPAWN ITEM\<close> (lines 221-249). \<open>itemId\<close> stands for
  \<open>Date.now() + Math.random().toString(36).substr(2, 5)\<close> and \<open>rnd\<close> for the value of
  \<open>Math.random()\<close> that picks the type.
\<close>

definition hitSpawnItem ::
  "string \<Rightarrow> string \<Rightarrow> string \<Rightarrow> real \<Rightarrow> room \<Rightarrow> room \<times> emission list \<times> (nat \<times> timer) list" where
  "hitSpawnItem roomId victimId itemId rnd roomRef =
     (case players roomRef victimId of
        None \<Rightarrow> (roomRef, [], [])
      | Some victim \<Rightarrow>
          if p_health victim \<le> 0 then
            (let itemType = (if rnd > 0.5 then 50 else 51);
                 itemData = \<lparr>i_id = itemId, i_x = p_x victim, i_y = p_y victim, i_type = itemType\<rparr>
             in (roomRef\<lparr>items := (items roomRef)(itemId \<mapsto> itemData)\<rparr>,
                 [(To roomId, ItemSpawn itemData)],
                 [(5000, ItemExpire roomId itemId)]))
          else (roomRef, [], []))"

text \<open>\<open>socket.on('playerHit', ...)\<close> with \<open>data = {roomId, damage, shooterId, victimId}\<close>.\<close>

definition playerHit ::
  "string \<Rightarrow> real \<Rightarrow> string \<Rightarrow> string \<Rightarrow> string \<Rightarrow> real \<Rightarrow> server \<Rightarrow> outcome" where
  "playerHit roomId damage shooterId victimId itemId rnd s =
     (case rooms s roomId of
        None \<Rightarrow> (s, [], [])
      | Some rm \<Rightarrow>
          if status rm \<noteq> PLAYING then (s, [], [])
          else
            (case players rm victimId of
               None \<Rightarrow> (s, [], [])
             | Some victim0 \<Rightarrow>
                 (let victim = victim0\<lparr>p_health := p_health victim0 - damage\<rparr>;
                      rm1 = rm\<lparr>players := (players rm)(victimId \<mapsto> victim)\<rparr>;
                      out1 = [(To roomId, HealthUpdate victimId (p_health victim) None)];
                      (rm2, out2, tm2) =
                        (if p_health victim \<le> 0
                         then hitDeath roomId shooterId victimId rm1 victim
                         else (rm1, [], []));
                      (rm3, out3, tm3) = hitSpawnItem roomId victimId itemId rnd rm2
                  in (s\<lparr>rooms := (rooms s)(roomId \<mapsto> rm3)\<rparr>, out1 @ out2 @ out3, tm2 @ tm3))))"

subsection \<open>The timers set by playerHit\<close>

definition SAFE_SPAWNS :: "(real \<times> real) list" where
  "SAFE_SPAWNS = [(2.5, 2.5), (21.5, 2.5), (2.5, 21.5), (21.5, 21.5), (12.0, 12.0)]"

text \<open>
  The respawn callback (lines 184-218). \<open>rnd\<close> is the value of \<open>Math.random()\<close>.
  \<open>SAFE_SPAWNS[i]\<close> is undefined for an index outside 0..4 and \<open>spawn.x\<close> then throws:
  that is \<open>None\<close> (it needs a \<open>rnd\<close> outside [0, 1), which \<open>Math.random\<close> never returns).
\<close>

definition respawnTimeout ::
  "string \<Rightarrow> string \<Rightarrow> real \<Rightarrow> server \<Rightarrow> (server \<times> emission list) option" where
  "respawnTimeout roomId victimId rnd s =
     (case rooms s roomId of
        None \<Rightarrow> Some (s, [])
      | Some roomRef \<Rightarrow>
          (case players roomRef victimId of
             None \<Rightarrow> Some (s, [])
           | Some victimRef \<Rightarrow>
               (let i = \<lfloor>rnd * real (length SAFE_SPAWNS)\<rfloor> in
                if 0 \<le> i \<and> i < int (length SAFE_SPAWNS) then
                  (let spawn = SAFE_SPAWNS ! nat i;
                       victim' = victimRef\<lparr>p_x := fst spawn, p_y := snd spawn,
                                           p_health := 100, p_isDead := False\<rparr>
                   in Some (s\<lparr>rooms := (rooms s)(roomId \<mapsto>
                                 roomRef\<lparr>players := (players roomRef)(victimId \<mapsto> victim')\<rparr>)\<rparr>,
                            [(To roomId, HealthUpdate victimId 100 (Some False)),
                             (To roomId, PlayerMoved victimId (p_x victim') (p_y victim') 0),
                             (To victimId, PlayerRespawn (p_x victim') (p_y victim'))]))
                else None)))"


subsection \<open>The pickupItem handler\<close>





subsection \<open>The match timer\<close>

text \<open>\<open>clearInterval(h)\<close>: the interval with that handle stops firing.\<close>

definition clearInterval :: "nat option \<Rightarrow> (nat \<times> string) list \<Rightarrow> (nat \<times> string) list" where
  "clearInterval h ivs = filter (\<lambda>(h', r). Some h' \<noteq> h) ivs"

text \<open>The loop of finishGame over \<open>Object.entries(room.scores)\<close>.\<close>

fun winnerLoop ::
  "(string \<times> int) list \<Rightarrow> (string \<rightharpoonup> player) \<Rightarrow> int \<times> string option \<times> string
     \<Rightarrow> int \<times> string option \<times> string" where
  "winnerLoop [] ps acc = acc"
| "winnerLoop ((pid, score) # rest) ps (maxScore, winnerId, winnerName) =
     (if score > maxScore
      then winnerLoop rest ps
             (score, Some pid, (case ps pid of Some p \<Rightarrow> p_name p | None \<Rightarrow> winnerName))
      else winnerLoop rest ps (maxScore, winnerId, winnerName))"

definition finishGame :: "string \<Rightarrow> server \<Rightarrow> server \<times> emission list" where
  "finishGame roomId s =
     (case rooms s roomId of
        None \<Rightarrow> (s, [])
      | Some rm \<Rightarrow>
          (let (maxScore, winnerId, winnerName) =
                 winnerLoop (scores rm) (players rm) (- 1, None, ''Unknown'')
           in (s\<lparr>rooms := (rooms s)(roomId \<mapsto> rm\<lparr>status := FINISHED\<rparr>),
                 intervals := clearInterval (timerInterval rm) (intervals s)\<rparr>,
               [(To roomId, GameOver winnerId winnerName (scores rm))])))"

text \<open>
  \<open>startGameLoop\<close> registers the interval; \<open>intervals\<close> keeps its handle with the
  \<open>roomId\<close> of its closure. The closure also holds the room object, which is the one
  registered under \<open>roomId\<close> whenever the callback gets past its first test (a room's
  interval is cleared when the room is deleted).
\<close>

definition startGameLoop :: "string \<Rightarrow> server \<Rightarrow> server" where
  "startGameLoop roomId s =
     (case rooms s roomId of
        None \<Rightarrow> s
      | Some rm \<Rightarrow>
          if timerInterval rm \<noteq> None then s
          else s\<lparr>rooms := (rooms s)(roomId \<mapsto> rm\<lparr>timerInterval := Some (nextHandle s)\<rparr>),
                 intervals := (nextHandle s, roomId) # intervals s,
                 nextHandle := nextHandle s + 1\<rparr>)"

text \<open>The callback given to setInterval (lines 302-313).\<close>

definition gameLoopTick :: "string \<Rightarrow> server \<Rightarrow> server \<times> emission list" where
  "gameLoopTick roomId s =
     (case rooms s roomId of
        None \<Rightarrow> (s, [])
      | Some rm \<Rightarrow>
          (let rm' = rm\<lparr>timeLeft := timeLeft rm - 1\<rparr>;
               s1 = s\<lparr>rooms := (rooms s)(roomId \<mapsto> rm')\<rparr>;
               out1 = [(To roomId, TimeUpdate (timeLeft rm'))]
           in if timeLeft rm' \<le> 0
              then (let (s2, out2) = finishGame roomId s1 in (s2, out1 @ out2))
              else (s1, out1)))"

text \<open>One period of 1000 ms of the interval with handle \<open>h\<close>: it fires unless cleared.\<close>

definition fireInterval :: "nat \<Rightarrow> server \<Rightarrow> server \<times> emission list" where
  "fireInterval h s =
     (case map_of (intervals s) h of
        None \<Rightarrow> (s, [])
      | Some roomId \<Rightarrow> gameLoopTick roomId s)"

text \<open>The first \<open>n\<close> periods of the interval, with no other event in between.\<close>

fun runTicks :: "nat \<Rightarrow> nat \<Rightarrow> server \<Rightarrow> server \<times> emission list" where
  "runTicks 0 h s = (s, [])"
| "runTicks (Suc n) h s =
     (let (s1, out1) = runTicks n h s;
          (s2, out2) = fireInterval h s1
      in (s2, out1 @ out2))"

text \<open>Reading the countdown, the status and the timer handle of a room of the server.\<close>

definition timeLeftOf :: "server \<Rightarrow> string \<Rightarrow> int option" where
  "timeLeftOf s roomId = map_option timeLeft (rooms s roomId)"

definition statusOf :: "server \<Rightarrow> string \<Rightarrow> status option" where
  "statusOf s roomId = map_option status (rooms s roomId)"

definition isTimeUpdate :: "emission \<Rightarrow> bool" where
  "isTimeUpdate e = (case snd e of TimeUpdate t \<Rightarrow> True | _ \<Rightarrow> False)"

subsection \<open>Creating and joining a room\<close>

text \<open>\<open>room.scores[k] = v\<close>: an existing key keeps its place, a new one goes last.\<close>

definition scoresSet :: "string \<Rightarrow> int \<Rightarrow> (string \<times> int) list \<Rightarrow> (string \<times> int) list" where
  "scoresSet k v sc =
     (if map_of sc k \<noteq> None
      then map (\<lambda>(k', v'). if k' = k then (k', v) else (k', v')) sc
      else sc @ [(k, v)])"

definition joinRoomInternal ::
  "string \<Rightarrow> string \<Rightarrow> string \<Rightarrow> server \<Rightarrow> server \<times> emission list" where
  "joinRoomInternal socketId roomId username s =
     (case rooms s roomId of
        None \<Rightarrow> (s, [(ToSocket socketId, ErrorMsg ''Room not found'')])
      | Some rm \<Rightarrow>
          (let newPlayer = \<lparr>p_x = 2.5, p_y = 2.5, p_angle = 0, p_health = 100,
                            p_id = socketId, p_isDead = False, p_name = username\<rparr>;
               rm1 = rm\<lparr>players := (players rm)(socketId \<mapsto> newPlayer),
                        scores := scoresSet socketId 0 (scores rm)\<rparr>;
               s1 = s\<lparr>rooms := (rooms s)(roomId \<mapsto> rm1)\<rparr>;
               s2 = (if status rm1 = WAITING
                     then startGameLoop roomId
                            (s1\<lparr>rooms := (rooms s1)(roomId \<mapsto> rm1\<lparr>status := PLAYING\<rparr>)\<rparr>)
                     else s1)
           in (s2,
               [(To roomId, PlayerJoined socketId username (players rm1) (timeLeft rm1)),
                (ToAll, RoomListUpdate)])))"

text \<open>ASCII letters of \<open>String.prototype.toUpperCase\<close>, enough for room ids.\<close>

definition toUpperCase :: "string \<Rightarrow> string" where
  "toUpperCase str =
     map (\<lambda>c. let n = (of_char c :: nat) in if 97 \<le> n \<and> n \<le> 122 then char_of (n - 32) else c) str"

text \<open>
  The payload of createRoom: a bare string (old clients) or an object whose fields may
  be missing.
\<close>

datatype createData =
    DataString string
  | DataObject "string option" "int option" "string option"

text \<open>\<open>v || d\<close> for a number and for a string.\<close>

definition orNumber :: "int option \<Rightarrow> int \<Rightarrow> int" where
  "orNumber v d = (case v of None \<Rightarrow> d | Some n \<Rightarrow> if n = 0 then d else n)"

definition orString :: "string option \<Rightarrow> string \<Rightarrow> string" where
  "orString v d = (case v of None \<Rightarrow> d | Some str \<Rightarrow> if str = [] then d else str)"

text \<open>
  The first createRoom handler (lines 39-78; the second registration, line 153, has an
  empty body). \<open>uuid1\<close> and \<open>uuid2\<close> stand for the two values of
  \<open>uuidv4().substring(0, 6).toUpperCase()\<close>. The duration is a whole number of minutes,
  as the lobby sends it.
\<close>

definition createRoom ::
  "string \<Rightarrow> createData \<Rightarrow> string \<Rightarrow> string \<Rightarrow> server \<Rightarrow> server \<times> emission list" where
  "createRoom socketId data uuid1 uuid2 s =
     (let (requestedId, duration, username) =
            (case data of
               DataObject customId d u \<Rightarrow> (customId, orNumber d 5, orString u ''Anonymous'')
             | DataString r \<Rightarrow> (Some r, 5, ''Anonymous''));
          requested = (case requestedId of None \<Rightarrow> False | Some r \<Rightarrow> r \<noteq> []);
          roomId0 = (case requestedId of
                       None \<Rightarrow> uuid1
                     | Some r \<Rightarrow> if r \<noteq> [] then take 10 (toUpperCase r) else uuid1)
      in if rooms s roomId0 \<noteq> None \<and> requested
         then (s, [(ToSocket socketId, ErrorMsg ''Room ID already exists'')])
         else
           (let roomId = (if rooms s roomId0 \<noteq> None then uuid2 else roomId0);
                s1 = s\<lparr>rooms := (rooms s)(roomId \<mapsto>
                         \<lparr>r_id = roomId, players = Map.empty, items = Map.empty,
                          timeLeft = duration * 60, status = WAITING, scores = [],
                          timerInterval = None\<rparr>)\<rparr>;
                (s2, out2) = joinRoomInternal socketId roomId username s1
            in (s2, [(ToSocket socketId, RoomCreated roomId)] @ out2 @ [(ToAll, RoomListUpdate)])))"

subsection \<open>A small match used in the examples\<close>

definition alice :: player where
  "alice = \<lparr>p_x = 2.5, p_y = 2.5, p_angle = 0, p_health = 100,
            p_id = ''a'', p_isDead = False, p_name = ''Alice''\<rparr>"

definition bob :: player where
  "bob = \<lparr>p_x = 7, p_y = 3.5, p_angle = 0, p_health = 100,
          p_id = ''b'', p_isDead = False, p_name = ''Bob''\<rparr>"

definition exRoom :: room where
  "exRoom = \<lparr>r_id = ''R'', players = [''a'' \<mapsto> alice, ''b'' \<mapsto> bob], items = Map.empty,
             timeLeft = 120, status = PLAYING, scores = [(''a'', 0), (''b'', 0)],
             timerInterval = Some 0\<rparr>"

definition exServer :: server where
  "exServer = \<lparr>rooms = [''R'' \<mapsto> exRoom], intervals = [(0, ''R'')], nextHandle = 1\<rparr>"

text \<open>
  A fresh server on which Alice creates a room for 2 minutes, and the server of the
  small match one second before the end with Alice and Bob tied at one kill each.
\<close>

definition emptyServer :: server where
  "emptyServer = \<lparr>rooms = Map.empty, intervals = [], nextHandle = 0\<rparr>"

definition exCreated :: "server \<times> emission list" where
  "exCreated = createRoom ''a'' (DataObject None (Some 2) (Some ''Alice'')) ''AB12CD'' ''EF34GH''
                 emptyServer"

definition exTie :: server where
  "exTie = exServer\<lparr>rooms := [''R'' \<mapsto> exRoom\<lparr>timeLeft := 1, scores := [(''a'', 1), (''b'', 1)]\<rparr>]\<rparr>"



text \<open>Reading a player, the score table and an item of a room of the server.\<close>

definition playerOf :: "server \<Rightarrow> string \<Rightarrow> string \<Rightarrow> player option" where
  "playerOf s roomId pid = (case rooms s roomId of None \<Rightarrow> None | Some rm \<Rightarrow> players rm pid)"

definition scoresOf :: "server \<Rightarrow> string \<Rightarrow> (string \<times> int) list" where
  "scoresOf s roomId = (case rooms s roomId of None \<Rightarrow> [] | Some rm \<Rightarrow> scores rm)"

definition itemOf :: "server \<Rightarrow> string \<Rightarrow> string \<Rightarrow> item option" where
  "itemOf s roomId itemId = (case rooms s roomId of None \<Rightarrow> None | Some rm \<Rightarrow> items rm itemId)"

text \<open>
  Alice kills Bob with one hit of 150, then hits the dead Bob again for 10 before his
  respawn; and the same kill claimed under a shooter id that is not in the room.
\<close>

definition exHit1 :: outcome where
  "exHit1 = playerHit ''R'' 150 ''a'' ''b'' ''i1'' 0.7 exServer"

definition exHit2 :: outcome where
  "exHit2 = playerHit ''R'' 10 ''a'' ''b'' ''i2'' 0.2 (fst exHit1)"


section \<open>The raycaster (engine/Raycaster.ts)\<close>

subsection \<open>Numbers, vectors and the grid\<close>

text \<open>
  The renderer computes with JavaScript numbers. Finite values are modelled by \<open>real\<close>
  (rounding is not modelled); the DDA distances can also be infinite, since
  \<open>Math.abs(1 / 0)\<close> is \<open>Infinity\<close>, so they are of type \<open>jsnum\<close>, with the results that
  IEEE arithmetic gives for the infinities and NaN.
\<close>

datatype jsnum = Fin real | PInf | NInf | NaN

fun js_add :: "jsnum \<Rightarrow> jsnum \<Rightarrow> jsnum" where
  "js_add (Fin a) (Fin b) = Fin (a + b)"
| "js_add NaN b = NaN"
| "js_add a NaN = NaN"
| "js_add PInf NInf = NaN"
| "js_add NInf PInf = NaN"
| "js_add PInf b = PInf"
| "js_add a PInf = PInf"
| "js_add NInf b = NInf"
| "js_add a NInf = NInf"

fun js_neg :: "jsnum \<Rightarrow> jsnum" where
  "js_neg (Fin a) = Fin (- a)"
| "js_neg PInf = NInf"
| "js_neg NInf = PInf"
| "js_neg NaN = NaN"

definition js_sub :: "jsnum \<Rightarrow> jsnum \<Rightarrow> jsnum" where
  "js_sub a b = js_add a (js_neg b)"

fun js_less :: "jsnum \<Rightarrow> jsnum \<Rightarrow> bool" where
  "js_less (Fin a) (Fin b) = (a < b)"
| "js_less NaN b = False"
| "js_less a NaN = False"
| "js_less (Fin a) PInf = True"
| "js_less NInf (Fin b) = True"
| "js_less NInf PInf = True"
| "js_less a b = False"

text \<open>\<open>c * d\<close> for a finite \<open>c\<close>.\<close>

fun js_scale :: "real \<Rightarrow> jsnum \<Rightarrow> jsnum" where
  "js_scale c (Fin x) = Fin (c * x)"
| "js_scale c PInf = (if c > 0 then PInf else if c < 0 then NInf else NaN)"
| "js_scale c NInf = (if c > 0 then NInf else if c < 0 then PInf else NaN)"
| "js_scale c NaN = NaN"

text \<open>\<open>Math.abs(1 / r)\<close>\<close>

definition js_absinv :: "real \<Rightarrow> jsnum" where
  "js_absinv r = (if r = 0 then PInf else Fin \<bar>1 / r\<bar>)"

record vec =
  v_x :: real
  v_y :: real

text \<open>The fields of \<open>Player\<close> that the renderer and the hit test read.\<close>

record rplayer =
  pl_pos :: vec
  pl_dir :: vec
  pl_plane :: vec
  pl_z :: real
  pl_pitch :: real

text \<open>
  \<open>map: number[][]\<close>, indexed \<open>map[mapX][mapY]\<close>. Reading outside an array gives
  \<open>undefined\<close>, which is \<open>None\<close> here.
\<close>

type_synonym grid = "int list list"

definition cell :: "grid \<Rightarrow> int \<Rightarrow> int \<Rightarrow> int option" where
  "cell m i j =
     (if 0 \<le> i \<and> i < int (length m)
      then (let row = m ! nat i
            in if 0 \<le> j \<and> j < int (length row) then Some (row ! nat j) else None)
      else None)"

subsection \<open>Wall casting\<close>

text \<open>The variables of the DDA loop.\<close>

record dda =
  mapX :: int
  mapY :: int
  sideDistX :: jsnum
  sideDistY :: jsnum
  side :: nat

text \<open>The ray of screen column \<open>x\<close> (lines 127-129).\<close>

definition rayDir :: "rplayer \<Rightarrow> real \<Rightarrow> real \<Rightarrow> real \<times> real" where
  "rayDir player w x =
     (let cameraX = 2 * x / w - 1
      in (v_x (pl_dir player) + v_x (pl_plane player) * cameraX,
          v_y (pl_dir player) + v_y (pl_plane player) * cameraX))"

text \<open>Lines 131-153: the starting cell and the first side distances.\<close>

definition ddaInit :: "vec \<Rightarrow> real \<Rightarrow> real \<Rightarrow> dda" where
  "ddaInit pos rayDirX rayDirY =
     (let mX = \<lfloor>v_x pos\<rfloor>; mY = \<lfloor>v_y pos\<rfloor>;
          deltaDistX = js_absinv rayDirX; deltaDistY = js_absinv rayDirY
      in \<lparr>mapX = mX, mapY = mY,
          sideDistX = (if rayDirX < 0 then js_scale (v_x pos - real_of_int mX) deltaDistX
                       else js_scale (real_of_int mX + 1.0 - v_x pos) deltaDistX),
          sideDistY = (if rayDirY < 0 then js_scale (v_y pos - real_of_int mY) deltaDistY
                       else js_scale (real_of_int mY + 1.0 - v_y pos) deltaDistY),
          side = 0\<rparr>)"

definition stepOf :: "real \<Rightarrow> int" where
  "stepOf rayDirC = (if rayDirC < 0 then - 1 else 1)"

text \<open>One pass through lines 157-165.\<close>

definition ddaStep :: "real \<Rightarrow> real \<Rightarrow> dda \<Rightarrow> dda" where
  "ddaStep rayDirX rayDirY st =
     (if js_less (sideDistX st) (sideDistY st)
      then st\<lparr>sideDistX := js_add (sideDistX st) (js_absinv rayDirX),
              mapX := mapX st + stepOf rayDirX, side := 0\<rparr>
      else st\<lparr>sideDistY := js_add (sideDistY st) (js_absinv rayDirY),
              mapY := mapY st + stepOf rayDirY, side := 1\<rparr>)"

text \<open>
  \<open>map[mapX] && map[mapX][mapY] > 0\<close>: a missing row is falsy and \<open>undefined > 0\<close> is
  false, so a cell outside the map is not a hit.
\<close>

definition wallAt :: "grid \<Rightarrow> int \<Rightarrow> int \<Rightarrow> bool" where
  "wallAt m i j = (case cell m i j of None \<Rightarrow> False | Some c \<Rightarrow> c > 0)"

text \<open>
  \<open>while (hit === 0) { ... }\<close> (lines 156-170). The loop has no bound of its own, so
  it is a partial function: \<open>None\<close> is the loop that never exits. The result is the state
  at the hit with \<open>wallType\<close>.
\<close>

partial_function (option) castWallsLoop ::
  "grid \<Rightarrow> real \<Rightarrow> real \<Rightarrow> dda \<Rightarrow> (dda \<times> int) option" where
  "castWallsLoop m rayDirX rayDirY st =
     (let st' = ddaStep rayDirX rayDirY st
      in case cell m (mapX st') (mapY st') of
           None \<Rightarrow> castWallsLoop m rayDirX rayDirY st'
         | Some c \<Rightarrow> if c > 0 then Some (st', c) else castWallsLoop m rayDirX rayDirY st')"

text \<open>Line 172.\<close>

definition perpWallDist :: "real \<Rightarrow> real \<Rightarrow> dda \<Rightarrow> jsnum" where
  "perpWallDist rayDirX rayDirY st =
     (if side st = 0 then js_sub (sideDistX st) (js_absinv rayDirX)
      else js_sub (sideDistY st) (js_absinv rayDirY))"

text \<open>
  Lines 191-196, for a finite \<open>perpWallDist\<close>; \<open>tw\<close> is \<open>texture.width\<close> of the frame
  chosen for the wall type (textures are not part of the model).
\<close>

definition wallXOf :: "nat \<Rightarrow> vec \<Rightarrow> real \<Rightarrow> real \<Rightarrow> real \<Rightarrow> real" where
  "wallXOf sd pos perp rayDirX rayDirY =
     (let wallX = (if sd = 0 then v_y pos + perp * rayDirY else v_x pos + perp * rayDirX)
      in wallX - real_of_int \<lfloor>wallX\<rfloor>)"

definition texXOf :: "nat \<Rightarrow> vec \<Rightarrow> real \<Rightarrow> real \<Rightarrow> real \<Rightarrow> int \<Rightarrow> int" where
  "texXOf sd pos perp rayDirX rayDirY tw =
     (let wallX = wallXOf sd pos perp rayDirX rayDirY;
          texX = \<lfloor>wallX * real_of_int tw\<rfloor>;
          texX1 = (if sd = 0 \<and> rayDirX > 0 then tw - texX - 1 else texX);
          texX2 = (if sd = 1 \<and> rayDirY < 0 then tw - texX1 - 1 else texX1)
      in texX2)"

text \<open>
  What castWalls finds for one ray: the cell hit, the side, the wall type, the distance
  written to \<open>zBuffer[x]\<close>, and the texture column (\<open>None\<close> when the distance is not
  finite and \<open>texX\<close> is NaN).
\<close>

record wallHit =
  h_mapX :: int
  h_mapY :: int
  h_side :: nat
  h_wallType :: int
  h_perpWallDist :: jsnum
  h_texX :: "int option"

definition castWallRay :: "grid \<Rightarrow> vec \<Rightarrow> real \<Rightarrow> real \<Rightarrow> int \<Rightarrow> wallHit option" where
  "castWallRay m pos rayDirX rayDirY tw =
     (case castWallsLoop m rayDirX rayDirY (ddaInit pos rayDirX rayDirY) of
        None \<Rightarrow> None
      | Some (st, wallType) \<Rightarrow>
          (let perp = perpWallDist rayDirX rayDirY st
           in Some \<lparr>h_mapX = mapX st, h_mapY = mapY st, h_side = side st,
                    h_wallType = wallType, h_perpWallDist = perp,
                    h_texX = (case perp of
                                Fin p \<Rightarrow> Some (texXOf (side st) pos p rayDirX rayDirY tw)
                              | _ \<Rightarrow> None)\<rparr>))"

text \<open>Maps and rays used in the examples: an open 3 by 3 map and a walled one.\<close>

definition openMap :: grid where
  "openMap = [[0, 0, 0], [0, 0, 0], [0, 0, 0]]"

definition walledMap :: grid where
  "walledMap = [[1, 1, 1], [1, 0, 1], [1, 1, 1]]"

text \<open>
  The shape of a side distance for a ray component \<open>rc\<close>: infinite when \<open>rc\<close> is zero,
  otherwise finite and non-negative (positive when \<open>strict\<close>).
\<close>

definition distOk :: "bool \<Rightarrow> real \<Rightarrow> jsnum \<Rightarrow> bool" where
  "distOk strict rc d =
     (case d of
        Fin a \<Rightarrow> rc \<noteq> 0 \<and> (if strict then 0 < a else 0 \<le> a)
      | PInf \<Rightarrow> rc = 0
      | _ \<Rightarrow> False)"

text \<open>
  How many cells the ray can still cross inside a box of \<open>W\<close> by \<open>H\<close> cells before it
  reaches the outermost ring, going in its step directions.
\<close>

definition cellsLeft :: "int \<Rightarrow> int \<Rightarrow> real \<Rightarrow> real \<Rightarrow> dda \<Rightarrow> nat" where
  "cellsLeft W H rayDirX rayDirY st =
     nat ((if rayDirX < 0 then mapX st else W - 1 - mapX st) +
          (if rayDirY < 0 then mapY st else H - 1 - mapY st))"

text \<open>
  A camera in the free cell of the walled map, and what castWalls finds there for the
  ray (0.25, 1), which hits the y-side of cell (1, 2).
\<close>

definition exPos :: vec where
  "exPos = \<lparr>v_x = 1.25, v_y = 1.5\<rparr>"

definition exHitUp :: wallHit where
  "exHitUp = \<lparr>h_mapX = 1, h_mapY = 2, h_side = 1, h_wallType = 1,
              h_perpWallDist = Fin 0.5, h_texX = Some 24\<rparr>"

subsection \<open>Sprite casting\<close>

text \<open>
  Of a sprite (enemy, item or particle) castSprites reads the position and the texture
  id. \<open>textures\<close> gives the width of the first frame of a texture id, \<open>None\<close> when
  \<open>textures[sprite.textureId]?.[0]\<close> is undefined.
\<close>

record sprite =
  sp_pos :: vec
  sp_textureId :: nat

text \<open>
  Lines 248-253: the sprite in camera space, as (transformX, transformY). When the
  determinant is 0, \<open>invDet\<close> is infinite and the result is \<open>None\<close>.
\<close>

definition transformOf :: "rplayer \<Rightarrow> sprite \<Rightarrow> (real \<times> real) option" where
  "transformOf player sp =
     (let spriteX = v_x (sp_pos sp) - v_x (pl_pos player);
          spriteY = v_y (sp_pos sp) - v_y (pl_pos player);
          det = v_x (pl_plane player) * v_y (pl_dir player)
                - v_x (pl_dir player) * v_y (pl_plane player)
      in if det = 0 then None
         else (let invDet = 1.0 / det
               in Some (invDet * (v_y (pl_dir player) * spriteX - v_x (pl_dir player) * spriteY),
                        invDet * (- v_y (pl_plane player) * spriteX
                                  + v_x (pl_plane player) * spriteY))))"

text \<open>Lines 257-269: the extent of the sprite on the screen.\<close>

record projection =
  spriteScreenX :: int
  spriteHeight :: real
  spriteWidth :: real
  drawStartY :: real
  drawEndY :: real
  drawStartX :: real
  drawEndX :: real

definition spriteProj ::
  "rplayer \<Rightarrow> int \<Rightarrow> int \<Rightarrow> real \<Rightarrow> real \<Rightarrow> real \<Rightarrow> projection" where
  "spriteProj player w h zoom transformX transformY =
     (let ssx = \<lfloor>(real_of_int w / 2) * (1 + transformX / transformY)\<rfloor>;
          sh = real_of_int \<bar>\<lfloor>real_of_int h / transformY\<rfloor>\<bar> * zoom;
          sw = real_of_int \<bar>\<lfloor>real_of_int h / transformY\<rfloor>\<bar> * zoom;
          vOffset = pl_pitch player + (pl_z player * real_of_int h * zoom) / transformY
      in \<lparr>spriteScreenX = ssx, spriteHeight = sh, spriteWidth = sw,
          drawStartY = - sh / 2 + real_of_int h / 2 + vOffset,
          drawEndY = sh / 2 + real_of_int h / 2 + vOffset,
          drawStartX = max 0 (- sw / 2 + real_of_int ssx),
          drawEndX = min (real_of_int w - 1) (sw / 2 + real_of_int ssx)\<rparr>)"

text \<open>\<open>this.zBuffer[stripe]\<close>; a read outside the array is undefined and compares like NaN.\<close>

definition zAt :: "jsnum list \<Rightarrow> int \<Rightarrow> jsnum" where
  "zAt zBuffer stripe =
     (if 0 \<le> stripe \<and> stripe < int (length zBuffer) then zBuffer ! nat stripe else NaN)"

text \<open>The test of line 276.\<close>

definition stripeVisible :: "real \<Rightarrow> int \<Rightarrow> jsnum list \<Rightarrow> int \<Rightarrow> bool" where
  "stripeVisible transformY w zBuffer stripe \<longleftrightarrow>
     transformY > 0 \<and> stripe > 0 \<and> stripe < w \<and> js_less (Fin transformY) (zAt zBuffer stripe)"

text \<open>One \<open>ctx.drawImage\<close> call of castSprites: screen column, texture column, top, height.\<close>

record stripeDraw =
  d_stripe :: int
  d_texX :: int
  d_y :: real
  d_h :: real

text \<open>
  The body of the loop over \<open>spriteOrder\<close> for one sprite: the drawImage calls it makes,
  in order. With a zero determinant the bounds of the stripe loop are NaN and the loop
  does not run.
\<close>

definition spriteColumns ::
  "rplayer \<Rightarrow> (nat \<rightharpoonup> int) \<Rightarrow> jsnum list \<Rightarrow> int \<Rightarrow> int \<Rightarrow> real \<Rightarrow> sprite \<Rightarrow> stripeDraw list" where
  "spriteColumns player textures zBuffer w h zoom sp =
     (case transformOf player sp of
        None \<Rightarrow> []
      | Some (transformX, transformY) \<Rightarrow>
          if transformY \<le> 0 then []
          else
            (let pr = spriteProj player w h zoom transformX transformY
             in case textures (sp_textureId sp) of
                  None \<Rightarrow> []
                | Some tw \<Rightarrow>
                    concat (map (\<lambda>stripe.
                      (let texX = \<lfloor>(real_of_int stripe - (- spriteWidth pr / 2 + real_of_int (spriteScreenX pr)))
                                    * real_of_int tw / spriteWidth pr\<rfloor>
                       in if stripeVisible transformY w zBuffer stripe
                          then (let clippedYStart = max 0 (drawStartY pr);
                                    clippedYEnd = min (real_of_int h - 1) (drawEndY pr)
                                in if clippedYEnd > clippedYStart
                                   then [\<lparr>d_stripe = stripe, d_texX = texX, d_y = clippedYStart,
                                          d_h = clippedYEnd - clippedYStart\<rparr>]
                                   else [])
                          else []))
                      [\<lfloor>drawStartX pr\<rfloor> .. \<lfloor>drawEndX pr\<rfloor> - 1])))"

text \<open>
  castSprites: the sprites in far-to-near order (a stable sort, descending in the
  squared distance to the player), each drawn in turn.
\<close>

definition spriteDist :: "rplayer \<Rightarrow> sprite \<Rightarrow> real" where
  "spriteDist player sp =
     (v_x (pl_pos player) - v_x (sp_pos sp)) ^ 2 + (v_y (pl_pos player) - v_y (sp_pos sp)) ^ 2"

definition castSprites ::
  "rplayer \<Rightarrow> (nat \<rightharpoonup> int) \<Rightarrow> jsnum list \<Rightarrow> int \<Rightarrow> int \<Rightarrow> real \<Rightarrow> sprite list \<Rightarrow> stripeDraw list" where
  "castSprites player textures zBuffer w h zoom sprites =
     concat (map (spriteColumns player textures zBuffer w h zoom)
               (sort_key (\<lambda>sp. - spriteDist player sp) sprites))"

text \<open>
  A camera at (2, 2) looking along +x with a 90 degree field of view on an 8 by 8 screen,
  a wall at distance 5 in every column, and a guard sprite two cells ahead at the left
  edge of the view.
\<close>

definition exCam :: rplayer where
  "exCam = \<lparr>pl_pos = \<lparr>v_x = 2, v_y = 2\<rparr>, pl_dir = \<lparr>v_x = 1, v_y = 0\<rparr>,
            pl_plane = \<lparr>v_x = 0, v_y = 1\<rparr>, pl_z = 0, pl_pitch = 0\<rparr>"

definition exTextures :: "nat \<rightharpoonup> int" where
  "exTextures = [99 \<mapsto> 64]"

definition exZ :: "jsnum list" where
  "exZ = replicate 8 (Fin 5)"

definition exGuard :: sprite where
  "exGuard = \<lparr>sp_pos = \<lparr>v_x = 4, v_y = 0\<rparr>, sp_textureId = 99\<rparr>"

section \<open>Hit resolution of a shot (shoot in the Game component)\<close>





















section \<open>Properties of the playerHit handler\<close>

lemma playerHit_unfold:
  assumes "rooms s roomId = Some rm" "status rm = PLAYING" "players rm victimId = Some victim0"
  shows "playerHit roomId damage shooterId victimId itemId rnd s =
    (let h = p_health victim0 - damage in
     if h \<le> 0 then
       (let sc = scoreKill shooterId (scores rm);
            victim' = victim0\<lparr>p_health := h, p_isDead := True\<rparr>;
            itemData = \<lparr>i_id = itemId, i_x = p_x victim0, i_y = p_y victim0,
                        i_type = (if rnd > 0.5 then 50 else 51)\<rparr>
        in (s\<lparr>rooms := (rooms s)(roomId \<mapsto>
                rm\<lparr>scores := sc, players := (players rm)(victimId \<mapsto> victim'),
                   items := (items rm)(itemId \<mapsto> itemData)\<rparr>)\<rparr>,
            [(To roomId, HealthUpdate victimId h None),
             (To roomId, HealthUpdate victimId 0 (Some True)),
             (To roomId, PlayerDied victimId shooterId sc),
             (To roomId, ItemSpawn itemData)],
            [(3000, Respawn roomId victimId), (5000, ItemExpire roomId itemId)]))
     else
       (s\<lparr>rooms := (rooms s)(roomId \<mapsto>
            rm\<lparr>players := (players rm)(victimId \<mapsto> victim0\<lparr>p_health := h\<rparr>)\<rparr>)\<rparr>,
        [(To roomId, HealthUpdate victimId h None)], []))"
  using assms by (simp add: playerHit_def hitDeath_def hitSpawnItem_def Let_def)

text \<open>
  C10. A playerHit on an existing victim of a PLAYING room first emits a healthUpdate
  with the raw stored health after the subtraction and no isDead field; on a lethal hit
  that value is zero or negative and the next event is the forced healthUpdate with
  health 0 and isDead true.
\<close>

theorem playerHit_raw_healthUpdate_first:
  assumes "rooms s roomId = Some rm" and "status rm = PLAYING"
    and "players rm victimId = Some victim0"
    and "playerHit roomId damage shooterId victimId itemId rnd s = (s', out, tms)"
  shows "\<exists>rm' victim' rest.
           rooms s' roomId = Some rm' \<and> players rm' victimId = Some victim' \<and>
           p_health victim' = p_health victim0 - damage \<and>
           out = (To roomId, HealthUpdate victimId (p_health victim') None) # rest \<and>
           (p_health victim0 - damage \<le> 0 \<longrightarrow>
              p_health victim' \<le> 0 \<and>
              (\<exists>rest'. rest = (To roomId, HealthUpdate victimId 0 (Some True)) # rest')) \<and>
           (p_health victim0 - damage > 0 \<longrightarrow> rest = [])"
  using assms(4) unfolding playerHit_unfold[OF assms(1-3)]
  by (auto simp: Let_def split: if_splits)

lemma ex_rooms: "rooms exServer ''R'' = Some exRoom"
  by (simp add: exServer_def)

lemma ex_status: "status exRoom = PLAYING"
  by (simp add: exRoom_def)

lemma ex_bob: "players exRoom ''b'' = Some bob"
  by (simp add: exRoom_def)

theorem playerHit_raw_healthUpdate_first_witness:
  "rooms exServer ''R'' = Some exRoom \<and> status exRoom = PLAYING \<and>
   players exRoom ''b'' = Some bob \<and>
   (\<exists>rest'. fst (snd (playerHit ''R'' 150 ''a'' ''b'' ''i1'' 0.7 exServer)) =
       (To ''R'', HealthUpdate ''b'' (- 50) None) #
       (To ''R'', HealthUpdate ''b'' 0 (Some True)) # rest')"
proof -
  obtain s' out tms where r: "playerHit ''R'' 150 ''a'' ''b'' ''i1'' 0.7 exServer = (s', out, tms)"
    by (cases "playerHit ''R'' 150 ''a'' ''b'' ''i1'' 0.7 exServer")
  from playerHit_raw_healthUpdate_first[OF ex_rooms ex_status ex_bob r]
  show ?thesis using r by (auto simp: ex_rooms ex_status ex_bob bob_def)
qed

lemma map_of_bump:
  "map_of (map (\<lambda>(k', v). if k' = k then (k', f v) else (k', v)) sc) q =
     (if q = k then map_option f (map_of sc k) else map_of sc q)"
  by (induction sc) auto

lemma map_of_scoreKill:
  "map_of (scoreKill k sc) q =
     (if q = k then map_option (\<lambda>v. v + 1) (map_of sc k) else map_of sc q)"
  unfolding scoreKill_def by (simp add: map_of_bump)



lemma playerHit_lethal:
  assumes "rooms s roomId = Some rm" and "status rm = PLAYING"
    and "players rm victimId = Some victim0"
    and "p_health victim0 - damage \<le> 0"
  shows "playerHit roomId damage shooterId victimId itemId rnd s =
     (s\<lparr>rooms := (rooms s)(roomId \<mapsto>
          rm\<lparr>scores := scoreKill shooterId (scores rm),
             players := (players rm)(victimId \<mapsto>
                victim0\<lparr>p_health := p_health victim0 - damage, p_isDead := True\<rparr>),
             items := (items rm)(itemId \<mapsto>
                \<lparr>i_id = itemId, i_x = p_x victim0, i_y = p_y victim0,
                 i_type = (if rnd > 0.5 then 50 else 51)\<rparr>)\<rparr>)\<rparr>,
      [(To roomId, HealthUpdate victimId (p_health victim0 - damage) None),
       (To roomId, HealthUpdate victimId 0 (Some True)),
       (To roomId, PlayerDied victimId shooterId (scoreKill shooterId (scores rm))),
       (To roomId, ItemSpawn \<lparr>i_id = itemId, i_x = p_x victim0, i_y = p_y victim0,
                 i_type = (if rnd > 0.5 then 50 else 51)\<rparr>)],
      [(3000, Respawn roomId victimId), (5000, ItemExpire roomId itemId)])"
  using assms(4) unfolding playerHit_unfold[OF assms(1-3)]
  by (simp add: Let_def)

text \<open>
  C1 (amended). In a PLAYING room a hit that takes a living victim's health to zero or
  below emits the forced healthUpdate (health 0, isDead true) once and one playerDied, and
  marks the victim dead. The handler never reads isDead: a second hit with non-negative
  damage on the same victim before the respawn runs the death branch again, with a second
  playerDied, a second increment of the shooter's score (when the shooter has a score
  entry) and a second loot item.
\<close>

theorem playerHit_dead_victim_again:
  assumes "rooms s roomId = Some rm" and "status rm = PLAYING"
    and "players rm victimId = Some victim0"
    and "0 < p_health victim0" and "p_health victim0 - d1 \<le> 0" and "0 \<le> d2"
    and "playerHit roomId d1 sh1 victimId item1 r1 s = (s1, out1, tm1)"
    and "playerHit roomId d2 sh2 victimId item2 r2 s1 = (s2, out2, tm2)"
  shows "out1 = [(To roomId, HealthUpdate victimId (p_health victim0 - d1) None),
                 (To roomId, HealthUpdate victimId 0 (Some True)),
                 (To roomId, PlayerDied victimId sh1 (scoreKill sh1 (scores rm))),
                 (To roomId, ItemSpawn \<lparr>i_id = item1, i_x = p_x victim0, i_y = p_y victim0,
                    i_type = (if r1 > 0.5 then 50 else 51)\<rparr>)] \<and>
         map_option p_isDead (playerOf s1 roomId victimId) = Some True \<and>
         out2 = [(To roomId, HealthUpdate victimId (p_health victim0 - d1 - d2) None),
                 (To roomId, HealthUpdate victimId 0 (Some True)),
                 (To roomId, PlayerDied victimId sh2 (scoreKill sh2 (scoreKill sh1 (scores rm)))),
                 (To roomId, ItemSpawn \<lparr>i_id = item2, i_x = p_x victim0, i_y = p_y victim0,
                    i_type = (if r2 > 0.5 then 50 else 51)\<rparr>)] \<and>
         scoresOf s2 roomId = scoreKill sh2 (scoreKill sh1 (scores rm)) \<and>
         (\<forall>n. sh2 = sh1 \<and> map_of (scores rm) sh1 = Some n \<longrightarrow>
              map_of (scoresOf s2 roomId) sh1 = Some (n + 2)) \<and>
         itemOf s2 roomId item2 \<noteq> None \<and>
         (item2 \<noteq> item1 \<longrightarrow> itemOf s2 roomId item1 \<noteq> None)"
proof -
  let ?rm1 = "rm\<lparr>scores := scoreKill sh1 (scores rm),
             players := (players rm)(victimId \<mapsto>
                victim0\<lparr>p_health := p_health victim0 - d1, p_isDead := True\<rparr>),
             items := (items rm)(item1 \<mapsto>
                \<lparr>i_id = item1, i_x = p_x victim0, i_y = p_y victim0,
                 i_type = (if r1 > 0.5 then 50 else 51)\<rparr>)\<rparr>"
  let ?v1 = "victim0\<lparr>p_health := p_health victim0 - d1, p_isDead := True\<rparr>"
  have h1: "s1 = s\<lparr>rooms := (rooms s)(roomId \<mapsto> ?rm1)\<rparr>"
    and o1: "out1 = [(To roomId, HealthUpdate victimId (p_health victim0 - d1) None),
                 (To roomId, HealthUpdate victimId 0 (Some True)),
                 (To roomId, PlayerDied victimId sh1 (scoreKill sh1 (scores rm))),
                 (To roomId, ItemSpawn \<lparr>i_id = item1, i_x = p_x victim0, i_y = p_y victim0,
                    i_type = (if r1 > 0.5 then 50 else 51)\<rparr>)]"
    using assms(7) unfolding playerHit_lethal[OF assms(1-3,5)] by simp_all
  have a1: "rooms s1 roomId = Some ?rm1" by (simp add: h1)
  have a2: "status ?rm1 = PLAYING" using assms(2) by simp
  have a3: "players ?rm1 victimId = Some ?v1" by simp
  have a4: "p_health ?v1 - d2 \<le> 0" using assms(5,6) by simp
  have h2: "scoresOf s2 roomId = scoreKill sh2 (scoreKill sh1 (scores rm))"
    and o2: "out2 = [(To roomId, HealthUpdate victimId (p_health victim0 - d1 - d2) None),
                 (To roomId, HealthUpdate victimId 0 (Some True)),
                 (To roomId, PlayerDied victimId sh2 (scoreKill sh2 (scoreKill sh1 (scores rm)))),
                 (To roomId, ItemSpawn \<lparr>i_id = item2, i_x = p_x victim0, i_y = p_y victim0,
                    i_type = (if r2 > 0.5 then 50 else 51)\<rparr>)]"
    and i2: "itemOf s2 roomId item2 \<noteq> None"
    and i1: "item2 \<noteq> item1 \<longrightarrow> itemOf s2 roomId item1 \<noteq> None"
    using assms(8) unfolding playerHit_lethal[OF a1 a2 a3 a4]
    by (auto simp: scoresOf_def itemOf_def)
  have d: "map_option p_isDead (playerOf s1 roomId victimId) = Some True"
    by (simp add: h1 playerOf_def)
  show ?thesis using o1 o2 h2 i1 i2 d by (simp add: map_of_scoreKill)
qed


lemma bob_lethal: "p_health bob - 150 \<le> 0" by (simp add: bob_def)

lemma exHit1_server:
  "fst exHit1 = exServer\<lparr>rooms := (rooms exServer)(''R'' \<mapsto>
      exRoom\<lparr>scores := [(''a'', 1), (''b'', 0)],
         players := (players exRoom)(''b'' \<mapsto> bob\<lparr>p_health := - 50, p_isDead := True\<rparr>),
         items := (items exRoom)(''i1'' \<mapsto> \<lparr>i_id = ''i1'', i_x = 7, i_y = 3.5, i_type = 50\<rparr>)\<rparr>)\<rparr>"
  unfolding exHit1_def playerHit_lethal[OF ex_rooms ex_status ex_bob bob_lethal]
  by (simp add: scoreKill_def exRoom_def bob_def)

text \<open>
  C1 as stated fails: after Alice's lethal hit on Bob (score 1, one item), her second hit
  on the dead Bob raises her score to 2 and spawns the second item.
\<close>

theorem playerHit_second_hit_counterexample:
  "rooms exServer ''R'' = Some exRoom \<and> status exRoom = PLAYING \<and>
   players exRoom ''b'' = Some bob \<and> 0 < p_health bob \<and> \<not> p_isDead bob \<and>
   map_option p_isDead (playerOf (fst exHit1) ''R'' ''b'') = Some True \<and>
   map_of (scoresOf (fst exHit1) ''R'') ''a'' = Some 1 \<and>
   itemOf (fst exHit1) ''R'' ''i2'' = None \<and>
   exHit2 = playerHit ''R'' 10 ''a'' ''b'' ''i2'' 0.2 (fst exHit1) \<and>
   map_of (scoresOf (fst exHit2) ''R'') ''a'' = Some 2 \<and>
   itemOf (fst exHit2) ''R'' ''i1'' \<noteq> None \<and>
   itemOf (fst exHit2) ''R'' ''i2'' \<noteq> None"
proof -
  let ?rm1 = "exRoom\<lparr>scores := [(''a'', 1), (''b'', 0)],
         players := (players exRoom)(''b'' \<mapsto> bob\<lparr>p_health := - 50, p_isDead := True\<rparr>),
         items := (items exRoom)(''i1'' \<mapsto> \<lparr>i_id = ''i1'', i_x = 7, i_y = 3.5, i_type = 50\<rparr>)\<rparr>"
  have a1: "rooms (fst exHit1) ''R'' = Some ?rm1" by (simp add: exHit1_server)
  have a2: "status ?rm1 = PLAYING" by (simp add: exRoom_def)
  have a3: "players ?rm1 ''b'' = Some (bob\<lparr>p_health := - 50, p_isDead := True\<rparr>)" by simp
  have a4: "p_health (bob\<lparr>p_health := - 50, p_isDead := True\<rparr>) - 10 \<le> 0" by simp
  have "map_of (scoresOf (fst exHit2) ''R'') ''a'' = Some 2"
    and "itemOf (fst exHit2) ''R'' ''i1'' \<noteq> None"
    and "itemOf (fst exHit2) ''R'' ''i2'' \<noteq> None"
    unfolding exHit2_def playerHit_lethal[OF a1 a2 a3 a4]
    by (simp_all add: scoresOf_def itemOf_def scoreKill_def exRoom_def)
  moreover have "map_option p_isDead (playerOf (fst exHit1) ''R'' ''b'') = Some True"
    and "map_of (scoresOf (fst exHit1) ''R'') ''a'' = Some 1"
    and "itemOf (fst exHit1) ''R'' ''i2'' = None"
    by (simp_all add: exHit1_server playerOf_def scoresOf_def itemOf_def exRoom_def)
  ultimately show ?thesis
    by (simp add: ex_rooms ex_status ex_bob bob_def exHit2_def)
qed

theorem playerHit_dead_victim_again_witness:
  "rooms exServer ''R'' = Some exRoom \<and> status exRoom = PLAYING \<and>
   players exRoom ''b'' = Some bob \<and> 0 < p_health bob \<and> p_health bob - 150 \<le> 0 \<and>
   (0::real) \<le> 10 \<and>
   fst (snd exHit2) =
     [(To ''R'', HealthUpdate ''b'' (- 60) None),
      (To ''R'', HealthUpdate ''b'' 0 (Some True)),
      (To ''R'', PlayerDied ''b'' ''a'' [(''a'', 2), (''b'', 0)]),
      (To ''R'', ItemSpawn \<lparr>i_id = ''i2'', i_x = 7, i_y = 3.5, i_type = 51\<rparr>)] \<and>
   map_of (scoresOf (fst exHit2) ''R'') ''a'' = Some 2"
proof -
  obtain s1 out1 tm1 where r1: "playerHit ''R'' 150 ''a'' ''b'' ''i1'' 0.7 exServer = (s1, out1, tm1)"
    by (cases "playerHit ''R'' 150 ''a'' ''b'' ''i1'' 0.7 exServer")
  obtain s2 out2 tm2 where r2: "playerHit ''R'' 10 ''a'' ''b'' ''i2'' 0.2 s1 = (s2, out2, tm2)"
    by (cases "playerHit ''R'' 10 ''a'' ''b'' ''i2'' 0.2 s1")
  have b: "0 < p_health bob" "p_health bob - 150 \<le> 0" "(0::real) \<le> 10" by (simp_all add: bob_def)
  from playerHit_dead_victim_again[OF ex_rooms ex_status ex_bob b r1 r2]
  show ?thesis using r1 r2 b
    by (simp add: exHit2_def exHit1_def ex_rooms ex_status ex_bob scoreKill_def exRoom_def bob_def)
qed



section \<open>Respawn and item timers\<close>

lemma spawn_index:
  assumes "0 \<le> r" "r < 1"
  shows "0 \<le> \<lfloor>r * real (length SAFE_SPAWNS)\<rfloor>" "\<lfloor>r * real (length SAFE_SPAWNS)\<rfloor> < int (length SAFE_SPAWNS)"
proof -
  have l: "length SAFE_SPAWNS = 5" by (simp add: SAFE_SPAWNS_def)
  show "0 \<le> \<lfloor>r * real (length SAFE_SPAWNS)\<rfloor>" using assms by (simp add: l)
  have "r * 5 < 5" using assms by simp
  then show "\<lfloor>r * real (length SAFE_SPAWNS)\<rfloor> < int (length SAFE_SPAWNS)"
    by (simp add: l floor_less_iff)
qed

lemma respawnTimeout_absent:
  "playerOf s' roomId victimId = None \<Longrightarrow> respawnTimeout roomId victimId r s' = Some (s', [])"
  by (auto simp: playerOf_def respawnTimeout_def split: option.splits)

lemma respawnTimeout_present:
  assumes "rooms s' roomId = Some rm'" "players rm' victimId = Some v" "0 \<le> r" "r < 1"
  shows "\<exists>x y. (x, y) \<in> set SAFE_SPAWNS \<and> (x, y) = SAFE_SPAWNS ! nat \<lfloor>r * 5\<rfloor> \<and>
          respawnTimeout roomId victimId r s' =
            Some (s'\<lparr>rooms := (rooms s')(roomId \<mapsto>
                     rm'\<lparr>players := (players rm')(victimId \<mapsto>
                        v\<lparr>p_x := x, p_y := y, p_health := 100, p_isDead := False\<rparr>)\<rparr>)\<rparr>,
                  [(To roomId, HealthUpdate victimId 100 (Some False)),
                   (To roomId, PlayerMoved victimId x y 0),
                   (To victimId, PlayerRespawn x y)])"
proof -
  let ?i = "\<lfloor>r * real (length SAFE_SPAWNS)\<rfloor>"
  have l: "length SAFE_SPAWNS = 5" by (simp add: SAFE_SPAWNS_def)
  have i: "0 \<le> ?i" "?i < int (length SAFE_SPAWNS)" using spawn_index[OF assms(3,4)] by auto
  then have m: "SAFE_SPAWNS ! nat ?i \<in> set SAFE_SPAWNS" by (intro nth_mem) linarith
  obtain x y where xy: "SAFE_SPAWNS ! nat ?i = (x, y)" by (cases "SAFE_SPAWNS ! nat ?i")
  have "respawnTimeout roomId victimId r s' =
            Some (s'\<lparr>rooms := (rooms s')(roomId \<mapsto>
                     rm'\<lparr>players := (players rm')(victimId \<mapsto>
                        v\<lparr>p_x := x, p_y := y, p_health := 100, p_isDead := False\<rparr>)\<rparr>)\<rparr>,
                  [(To roomId, HealthUpdate victimId 100 (Some False)),
                   (To roomId, PlayerMoved victimId x y 0),
                   (To victimId, PlayerRespawn x y)])"
    using assms(1,2) i xy by (simp add: respawnTimeout_def Let_def)
  then show ?thesis using m xy l by auto
qed

text \<open>
  C4. A hit that takes the victim's health to zero or below registers the respawn
  callback once, with a delay of 3000 ms. When it fires, it does nothing if the room or
  the victim is gone; otherwise it sets the victim's health to 100, clears isDead, moves
  the victim to the entry of SAFE_SPAWNS (one of the five fixed coordinates) at index
  \<open>floor (Math.random() * 5)\<close>, and its playerRespawn event goes to the victim's own
  channel only.
\<close>

theorem respawn_after_lethal_hit:
  assumes "rooms s roomId = Some rm" and "status rm = PLAYING"
    and "players rm victimId = Some victim0"
    and "p_health victim0 - damage \<le> 0"
    and "playerHit roomId damage shooterId victimId itemId rnd s = (s1, out, tms)"
  shows "filter (\<lambda>(d, t). t = Respawn roomId victimId) tms = [(3000, Respawn roomId victimId)] \<and>
         (\<forall>s' r. playerOf s' roomId victimId = None \<longrightarrow>
                  respawnTimeout roomId victimId r s' = Some (s', [])) \<and>
         (\<forall>s' r rm' v. rooms s' roomId = Some rm' \<and> players rm' victimId = Some v \<and>
                  0 \<le> r \<and> r < 1 \<longrightarrow>
            (\<exists>x y. (x, y) \<in> {(2.5, 2.5), (21.5, 2.5), (2.5, 21.5), (21.5, 21.5), (12, 12)} \<and>
               (x, y) = SAFE_SPAWNS ! nat \<lfloor>r * 5\<rfloor> \<and>
               respawnTimeout roomId victimId r s' =
                 Some (s'\<lparr>rooms := (rooms s')(roomId \<mapsto>
                          rm'\<lparr>players := (players rm')(victimId \<mapsto>
                             v\<lparr>p_x := x, p_y := y, p_health := 100, p_isDead := False\<rparr>)\<rparr>)\<rparr>,
                       [(To roomId, HealthUpdate victimId 100 (Some False)),
                        (To roomId, PlayerMoved victimId x y 0),
                        (To victimId, PlayerRespawn x y)])))"
proof -
  have t: "tms = [(3000, Respawn roomId victimId), (5000, ItemExpire roomId itemId)]"
    using assms(5) unfolding playerHit_lethal[OF assms(1-4)] by simp
  have s: "set SAFE_SPAWNS = {(2.5, 2.5), (21.5, 2.5), (2.5, 21.5), (21.5, 21.5), (12, 12)}"
    by (simp add: SAFE_SPAWNS_def)
  show ?thesis
    unfolding t s[symmetric]
    using respawnTimeout_absent respawnTimeout_present by simp
qed


theorem respawn_after_lethal_hit_witness:
  "rooms exServer ''R'' = Some exRoom \<and> status exRoom = PLAYING \<and>
   players exRoom ''b'' = Some bob \<and> p_health bob - 150 \<le> 0 \<and>
   snd (snd exHit1) = [(3000, Respawn ''R'' ''b''), (5000, ItemExpire ''R'' ''i1'')] \<and>
   playerOf (exServer\<lparr>rooms := Map.empty\<rparr>) ''R'' ''b'' = None \<and>
   respawnTimeout ''R'' ''b'' 0.7 (exServer\<lparr>rooms := Map.empty\<rparr>) =
     Some (exServer\<lparr>rooms := Map.empty\<rparr>, []) \<and>
   map_option p_health (playerOf (fst exHit1) ''R'' ''b'') = Some (- 50) \<and>
   (0::real) \<le> 0.7 \<and> (0.7::real) < 1 \<and>
   map_option snd (respawnTimeout ''R'' ''b'' 0.7 (fst exHit1)) =
     Some [(To ''R'', HealthUpdate ''b'' 100 (Some False)),
           (To ''R'', PlayerMoved ''b'' 21.5 21.5 0),
           (To ''b'', PlayerRespawn 21.5 21.5)]"
proof -
  obtain s1 out1 tm1 where r1: "playerHit ''R'' 150 ''a'' ''b'' ''i1'' 0.7 exServer = (s1, out1, tm1)"
    by (cases "playerHit ''R'' 150 ''a'' ''b'' ''i1'' 0.7 exServer")
  have s1: "s1 = fst exHit1" using r1 by (simp add: exHit1_def)
  note th = respawn_after_lethal_hit[OF ex_rooms ex_status ex_bob bob_lethal r1]
  let ?rm1 = "exRoom\<lparr>scores := [(''a'', 1), (''b'', 0)],
         players := (players exRoom)(''b'' \<mapsto> bob\<lparr>p_health := - 50, p_isDead := True\<rparr>),
         items := (items exRoom)(''i1'' \<mapsto> \<lparr>i_id = ''i1'', i_x = 7, i_y = 3.5, i_type = 50\<rparr>)\<rparr>"
  let ?v1 = "bob\<lparr>p_health := - 50, p_isDead := True\<rparr>"
  have z: "playerOf (exServer\<lparr>rooms := Map.empty\<rparr>) ''R'' ''b'' = None"
    by (simp add: playerOf_def)
  have b: "rooms (fst exHit1) ''R'' = Some ?rm1 \<and> players ?rm1 ''b'' = Some ?v1 \<and>
           (0::real) \<le> 0.7 \<and> (0.7::real) < 1"
    by (simp add: exHit1_server)
  have f: "nat \<lfloor>(7 / 10 :: real) * 5\<rfloor> = 3" by simp
  have t2: "respawnTimeout ''R'' ''b'' 0.7 (exServer\<lparr>rooms := Map.empty\<rparr>) =
     Some (exServer\<lparr>rooms := Map.empty\<rparr>, [])"
    using th[THEN conjunct2, THEN conjunct1, rule_format, OF z] .
  from th[THEN conjunct2, THEN conjunct2, rule_format, OF b]
  obtain x y where xy: "(x, y) = SAFE_SPAWNS ! nat \<lfloor>(7 / 10 :: real) * 5\<rfloor>"
    and r: "map_option snd (respawnTimeout ''R'' ''b'' 0.7 (fst exHit1)) =
         Some [(To ''R'', HealthUpdate ''b'' 100 (Some False)),
               (To ''R'', PlayerMoved ''b'' x y 0), (To ''b'', PlayerRespawn x y)]"
    by auto
  from xy have "x = 21.5 \<and> y = 21.5" unfolding f by (simp add: SAFE_SPAWNS_def)
  with r have t3: "map_option snd (respawnTimeout ''R'' ''b'' 0.7 (fst exHit1)) =
     Some [(To ''R'', HealthUpdate ''b'' 100 (Some False)),
           (To ''R'', PlayerMoved ''b'' 21.5 21.5 0),
           (To ''b'', PlayerRespawn 21.5 21.5)]" by simp
  have tm: "snd (snd exHit1) = [(3000, Respawn ''R'' ''b''), (5000, ItemExpire ''R'' ''i1'')]"
    unfolding exHit1_def playerHit_lethal[OF ex_rooms ex_status ex_bob bob_lethal] by simp
  have h: "map_option p_health (playerOf (fst exHit1) ''R'' ''b'') = Some (- 50)"
    by (simp add: exHit1_server playerOf_def)
  show ?thesis using t2 t3 tm z h bob_lethal ex_rooms ex_status ex_bob by simp
qed












section \<open>The countdown and the end of the match\<close>

lemma winnerLoop_first_max:
  "winnerLoop sc ps (m0, w0, n0) = (m, w, n) \<Longrightarrow>
     (m = m0 \<and> w = w0 \<and> (\<forall>(k, v) \<in> set sc. v \<le> m0)) \<or>
     (m0 < m \<and> (\<exists>pre p post. sc = pre @ (p, m) # post \<and> w = Some p \<and>
         (\<forall>(k, v) \<in> set pre. v < m) \<and> (\<forall>(k, v) \<in> set post. v \<le> m)))"
proof (induction sc arbitrary: m0 w0 n0)
  case Nil
  then show ?case by simp
next
  case (Cons a sc)
  obtain pid score where a: "a = (pid, score)" by (cases a)
  show ?case
  proof (cases "score > m0")
    case True
    let ?n1 = "case ps pid of Some p \<Rightarrow> p_name p | None \<Rightarrow> n0"
    from Cons.prems True a have r: "winnerLoop sc ps (score, Some pid, ?n1) = (m, w, n)" by simp
    from Cons.IH[OF r] show ?thesis
    proof
      assume h: "m = score \<and> w = Some pid \<and> (\<forall>(k, v) \<in> set sc. v \<le> score)"
      have "a # sc = [] @ (pid, m) # sc" using a h by simp
      then show ?thesis using h True by (intro disjI2) (fastforce)
    next
      assume h: "score < m \<and> (\<exists>pre p post. sc = pre @ (p, m) # post \<and> w = Some p \<and>
         (\<forall>(k, v) \<in> set pre. v < m) \<and> (\<forall>(k, v) \<in> set post. v \<le> m))"
      then obtain pre p post where s: "sc = pre @ (p, m) # post" "w = Some p"
        "\<forall>(k, v) \<in> set pre. v < m" "\<forall>(k, v) \<in> set post. v \<le> m" by blast
      have "a # sc = (a # pre) @ (p, m) # post" using s by simp
      moreover have "\<forall>(k, v) \<in> set (a # pre). v < m" using s h a by simp
      moreover have "m0 < m" using h True by simp
      ultimately show ?thesis using s by blast
    qed
  next
    case False
    from Cons.prems False a have r: "winnerLoop sc ps (m0, w0, n0) = (m, w, n)" by simp
    from Cons.IH[OF r] show ?thesis
    proof
      assume "m = m0 \<and> w = w0 \<and> (\<forall>(k, v) \<in> set sc. v \<le> m0)"
      then show ?thesis using False a by simp
    next
      assume h: "m0 < m \<and> (\<exists>pre p post. sc = pre @ (p, m) # post \<and> w = Some p \<and>
         (\<forall>(k, v) \<in> set pre. v < m) \<and> (\<forall>(k, v) \<in> set post. v \<le> m))"
      then obtain pre p post where s: "sc = pre @ (p, m) # post" "w = Some p"
        "\<forall>(k, v) \<in> set pre. v < m" "\<forall>(k, v) \<in> set post. v \<le> m" by blast
      have "a # sc = (a # pre) @ (p, m) # post" using s by simp
      moreover have "\<forall>(k, v) \<in> set (a # pre). v < m" using s h a False by simp
      ultimately show ?thesis using s h by blast
    qed
  qed
qed

lemma finishGame_winner:
  assumes "rooms s roomId = Some rm" "scores rm \<noteq> []" "\<forall>(k, v) \<in> set (scores rm). 0 \<le> v"
  shows "\<exists>w wn m pre post.
           finishGame roomId s =
             (s\<lparr>rooms := (rooms s)(roomId \<mapsto> rm\<lparr>status := FINISHED\<rparr>),
                intervals := clearInterval (timerInterval rm) (intervals s)\<rparr>,
              [(To roomId, GameOver (Some w) wn (scores rm))]) \<and>
           scores rm = pre @ (w, m) # post \<and>
           (\<forall>(k, v) \<in> set pre. v < m) \<and> (\<forall>(k, v) \<in> set post. v \<le> m)"
proof -
  obtain m w n where r: "winnerLoop (scores rm) (players rm) (- 1, None, ''Unknown'') = (m, w, n)"
    by (cases "winnerLoop (scores rm) (players rm) (- 1, None, ''Unknown'')")
  obtain k v where kv: "(k, v) \<in> set (scores rm)" using assms(2) by (cases "scores rm") auto
  then have "\<not> (\<forall>(k, v) \<in> set (scores rm). v \<le> - 1)" using assms(3) by fastforce
  with winnerLoop_first_max[OF r]
  obtain pre p post where s: "scores rm = pre @ (p, m) # post" "w = Some p"
        "\<forall>(k, v) \<in> set pre. v < m" "\<forall>(k, v) \<in> set post. v \<le> m" by blast
  have "finishGame roomId s =
             (s\<lparr>rooms := (rooms s)(roomId \<mapsto> rm\<lparr>status := FINISHED\<rparr>),
                intervals := clearInterval (timerInterval rm) (intervals s)\<rparr>,
              [(To roomId, GameOver (Some p) n (scores rm))])"
    using assms(1) r s(2) by (simp add: finishGame_def)
  then show ?thesis using s by blast
qed

lemma gameLoopTick_running:
  assumes "rooms s roomId = Some rm" "1 < timeLeft rm"
  shows "gameLoopTick roomId s =
     (s\<lparr>rooms := (rooms s)(roomId \<mapsto> rm\<lparr>timeLeft := timeLeft rm - 1\<rparr>)\<rparr>,
      [(To roomId, TimeUpdate (timeLeft rm - 1))])"
  using assms by (simp add: gameLoopTick_def Let_def)

lemma gameLoopTick_last:
  assumes "rooms s roomId = Some rm" "timeLeft rm \<le> 1"
    "scores rm \<noteq> []" "\<forall>(k, v) \<in> set (scores rm). 0 \<le> v"
  shows "\<exists>w wn m pre post.
     gameLoopTick roomId s =
       (s\<lparr>rooms := (rooms s)(roomId \<mapsto> rm\<lparr>timeLeft := timeLeft rm - 1, status := FINISHED\<rparr>),
          intervals := clearInterval (timerInterval rm) (intervals s)\<rparr>,
        [(To roomId, TimeUpdate (timeLeft rm - 1)),
         (To roomId, GameOver (Some w) wn (scores rm))]) \<and>
     scores rm = pre @ (w, m) # post \<and>
     (\<forall>(k, v) \<in> set pre. v < m) \<and> (\<forall>(k, v) \<in> set post. v \<le> m)"
proof -
  let ?rm' = "rm\<lparr>timeLeft := timeLeft rm - 1\<rparr>"
  let ?s1 = "s\<lparr>rooms := (rooms s)(roomId \<mapsto> ?rm')\<rparr>"
  have a: "rooms ?s1 roomId = Some ?rm'" by simp
  have b: "scores ?rm' \<noteq> []" "\<forall>(k, v) \<in> set (scores ?rm'). 0 \<le> v" using assms(3,4) by simp_all
  from finishGame_winner[OF a b]
  obtain w wn m pre post where f: "finishGame roomId ?s1 =
             (?s1\<lparr>rooms := (rooms ?s1)(roomId \<mapsto> ?rm'\<lparr>status := FINISHED\<rparr>),
                intervals := clearInterval (timerInterval ?rm') (intervals ?s1)\<rparr>,
              [(To roomId, GameOver (Some w) wn (scores ?rm'))])"
     and s: "scores ?rm' = pre @ (w, m) # post"
           "\<forall>(k, v) \<in> set pre. v < m" "\<forall>(k, v) \<in> set post. v \<le> m" by blast
  have "gameLoopTick roomId s =
       (s\<lparr>rooms := (rooms s)(roomId \<mapsto> rm\<lparr>timeLeft := timeLeft rm - 1, status := FINISHED\<rparr>),
          intervals := clearInterval (timerInterval rm) (intervals s)\<rparr>,
        [(To roomId, TimeUpdate (timeLeft rm - 1)),
         (To roomId, GameOver (Some w) wn (scores rm))])"
    using assms(1,2) f by (simp add: gameLoopTick_def Let_def)
  then show ?thesis using s by auto
qed

lemma runTicks_Suc:
  "runTicks n h s = (s1, out1) \<Longrightarrow> fireInterval h s1 = (s2, out2) \<Longrightarrow>
   runTicks (Suc n) h s = (s2, out1 @ out2)"
  by simp

lemma timeUpdates_snoc:
  "map (\<lambda>k. (To roomId, TimeUpdate (t - int k))) [1..<Suc n] @ [(To roomId, TimeUpdate (t - int n - 1))] =
   map (\<lambda>k. (To roomId, TimeUpdate (t - int k))) [1..<Suc (Suc n)]"
  by (simp add: algebra_simps)

lemma room_upd_twice:
  "s\<lparr>rooms := (rooms s)(roomId \<mapsto> a)\<rparr>\<lparr>rooms :=
      (rooms (s\<lparr>rooms := (rooms s)(roomId \<mapsto> a)\<rparr>))(roomId \<mapsto> b)\<rparr> =
   s\<lparr>rooms := (rooms s)(roomId \<mapsto> b)\<rparr>"
  by simp

lemma runTicks_running:
  assumes "rooms s roomId = Some rm" "map_of (intervals s) h = Some roomId"
  shows "int n < timeLeft rm \<Longrightarrow>
     runTicks n h s =
       (s\<lparr>rooms := (rooms s)(roomId \<mapsto> rm\<lparr>timeLeft := timeLeft rm - int n\<rparr>)\<rparr>,
        map (\<lambda>k. (To roomId, TimeUpdate (timeLeft rm - int k))) [1..<Suc n])"
proof (induction n)
  case 0
  have "rm\<lparr>timeLeft := timeLeft rm - int 0\<rparr> = rm" by simp
  moreover have "(rooms s)(roomId \<mapsto> rm) = rooms s" using assms(1) by (rule map_upd_triv)
  ultimately have e: "s\<lparr>rooms := (rooms s)(roomId \<mapsto> rm\<lparr>timeLeft := timeLeft rm - int 0\<rparr>)\<rparr> = s"
    by simp
  show ?case unfolding runTicks.simps e by simp
next
  case (Suc n)
  let ?rm1 = "rm\<lparr>timeLeft := timeLeft rm - int n\<rparr>"
  let ?s1 = "s\<lparr>rooms := (rooms s)(roomId \<mapsto> ?rm1)\<rparr>"
  have "int n < timeLeft rm" using Suc.prems by simp
  from Suc.IH[OF this]
  have ih: "runTicks n h s = (?s1, map (\<lambda>k. (To roomId, TimeUpdate (timeLeft rm - int k))) [1..<Suc n])" .
  have a: "rooms ?s1 roomId = Some ?rm1" by simp
  have b: "1 < timeLeft ?rm1" using Suc.prems by simp
  have c: "map_of (intervals ?s1) h = Some roomId" using assms(2) by simp
  have e: "?rm1\<lparr>timeLeft := timeLeft rm - int n - 1\<rparr> = rm\<lparr>timeLeft := timeLeft rm - int (Suc n)\<rparr>"
    by simp
  have e': "timeLeft ?rm1 - 1 = timeLeft rm - int n - 1" by simp
  have f: "fireInterval h ?s1 =
     (s\<lparr>rooms := (rooms s)(roomId \<mapsto> rm\<lparr>timeLeft := timeLeft rm - int (Suc n)\<rparr>)\<rparr>,
      [(To roomId, TimeUpdate (timeLeft rm - int n - 1))])"
    unfolding fireInterval_def c option.case gameLoopTick_running[OF a b] e room_upd_twice e' ..
  show ?case
    using runTicks_Suc[OF ih f] unfolding timeUpdates_snoc .
qed

lemma map_of_clearInterval: "map_of (clearInterval (Some h) ivs) h = None"
  unfolding clearInterval_def by (induction ivs) auto

lemma createRoom_ok:
  assumes "createRoom socketId (DataObject customId (Some d) username) uuid1 uuid2 s = (s0, out0)"
    and "(ToSocket socketId, RoomCreated roomId) \<in> set out0" and "d \<noteq> 0"
  shows "\<exists>rm0. rooms s0 roomId = Some rm0 \<and> timeLeft rm0 = d * 60 \<and> status rm0 = PLAYING \<and>
           timerInterval rm0 = Some (nextHandle s) \<and>
           intervals s0 = (nextHandle s, roomId) # intervals s \<and>
           scores rm0 = [(socketId, 0)]"
  using assms
  by (auto simp: createRoom_def joinRoomInternal_def startGameLoop_def scoresSet_def
        orNumber_def Let_def split: if_splits option.splits)

lemma fireInterval_running:
  assumes "rooms s roomId = Some rm" "map_of (intervals s) h = Some roomId" "1 < timeLeft rm"
  shows "fireInterval h s =
     (s\<lparr>rooms := (rooms s)(roomId \<mapsto> rm\<lparr>timeLeft := timeLeft rm - 1\<rparr>)\<rparr>,
      [(To roomId, TimeUpdate (timeLeft rm - 1))])"
  unfolding fireInterval_def assms(2) option.case by (rule gameLoopTick_running[OF assms(1,3)])

lemma fireInterval_last:
  assumes "rooms s roomId = Some rm" "map_of (intervals s) h = Some roomId" "timeLeft rm \<le> 1"
    "scores rm \<noteq> []" "\<forall>(k, v) \<in> set (scores rm). 0 \<le> v"
  shows "\<exists>w wn m pre post.
     fireInterval h s =
       (s\<lparr>rooms := (rooms s)(roomId \<mapsto> rm\<lparr>timeLeft := timeLeft rm - 1, status := FINISHED\<rparr>),
          intervals := clearInterval (timerInterval rm) (intervals s)\<rparr>,
        [(To roomId, TimeUpdate (timeLeft rm - 1)),
         (To roomId, GameOver (Some w) wn (scores rm))]) \<and>
     scores rm = pre @ (w, m) # post \<and>
     (\<forall>(k, v) \<in> set pre. v < m) \<and> (\<forall>(k, v) \<in> set post. v \<le> m)"
  unfolding fireInterval_def assms(2) option.case
  by (rule gameLoopTick_last[OF assms(1,3,4,5)])

lemma runTicks_whole:
  assumes "rooms s roomId = Some rm" "map_of (intervals s) h = Some roomId"
    "timerInterval rm = Some h" "status rm = PLAYING"
    "scores rm \<noteq> []" "\<forall>(k, v) \<in> set (scores rm). 0 \<le> v" "0 < timeLeft rm"
  shows "(\<forall>n. int n < timeLeft rm \<longrightarrow>
            timeLeftOf (fst (runTicks n h s)) roomId = Some (timeLeft rm - int n) \<and>
            statusOf (fst (runTicks n h s)) roomId = Some PLAYING \<and>
            map_of (intervals (fst (runTicks n h s))) h = Some roomId \<and>
            snd (runTicks n h s) =
              map (\<lambda>k. (To roomId, TimeUpdate (timeLeft rm - int k))) [1..<Suc n]) \<and>
         timeLeftOf (fst (runTicks (nat (timeLeft rm)) h s)) roomId = Some 0 \<and>
         statusOf (fst (runTicks (nat (timeLeft rm)) h s)) roomId = Some FINISHED \<and>
         map_of (intervals (fst (runTicks (nat (timeLeft rm)) h s))) h = None \<and>
         (\<exists>w wn m pre post.
            snd (runTicks (nat (timeLeft rm)) h s) =
              map (\<lambda>k. (To roomId, TimeUpdate (timeLeft rm - int k))) [1..<Suc (nat (timeLeft rm))] @
              [(To roomId, GameOver (Some w) wn (scores rm))] \<and>
            scores rm = pre @ (w, m) # post \<and>
            (\<forall>(k, v) \<in> set pre. v < m) \<and> (\<forall>(k, v) \<in> set post. v \<le> m))"
proof -
  have A: "\<And>n. int n < timeLeft rm \<Longrightarrow>
            timeLeftOf (fst (runTicks n h s)) roomId = Some (timeLeft rm - int n) \<and>
            statusOf (fst (runTicks n h s)) roomId = Some PLAYING \<and>
            map_of (intervals (fst (runTicks n h s))) h = Some roomId \<and>
            snd (runTicks n h s) =
              map (\<lambda>k. (To roomId, TimeUpdate (timeLeft rm - int k))) [1..<Suc n]"
    unfolding runTicks_running[OF assms(1,2)]
    using assms(2,4) by (simp add: timeLeftOf_def statusOf_def)
  obtain N where N: "nat (timeLeft rm) = Suc N" using assms(7) by (cases "nat (timeLeft rm)") auto
  then have lt: "int N < timeLeft rm" and tl: "timeLeft rm - int N = 1" by linarith+
  let ?rm1 = "rm\<lparr>timeLeft := timeLeft rm - int N\<rparr>"
  let ?s1 = "s\<lparr>rooms := (rooms s)(roomId \<mapsto> ?rm1)\<rparr>"
  have r: "runTicks N h s = (?s1, map (\<lambda>k. (To roomId, TimeUpdate (timeLeft rm - int k))) [1..<Suc N])"
    by (rule runTicks_running[OF assms(1,2) lt])
  have a: "rooms ?s1 roomId = Some ?rm1" by simp
  have b: "map_of (intervals ?s1) h = Some roomId" using assms(2) by simp
  have c: "timeLeft ?rm1 \<le> 1" using tl by simp
  have d: "scores ?rm1 \<noteq> []" "\<forall>(k, v) \<in> set (scores ?rm1). 0 \<le> v" using assms(5,6) by simp_all
  from fireInterval_last[OF a b c d]
  obtain w wn m pre post where f: "fireInterval h ?s1 =
       (?s1\<lparr>rooms := (rooms ?s1)(roomId \<mapsto> ?rm1\<lparr>timeLeft := timeLeft ?rm1 - 1, status := FINISHED\<rparr>),
          intervals := clearInterval (timerInterval ?rm1) (intervals ?s1)\<rparr>,
        [(To roomId, TimeUpdate (timeLeft ?rm1 - 1)),
         (To roomId, GameOver (Some w) wn (scores ?rm1))])"
    and sc: "scores ?rm1 = pre @ (w, m) # post"
     "\<forall>(k, v) \<in> set pre. v < m" "\<forall>(k, v) \<in> set post. v \<le> m" by blast
  note R = runTicks_Suc[OF r f]
  have B1: "timeLeftOf (fst (runTicks (nat (timeLeft rm)) h s)) roomId = Some 0"
    and B2: "statusOf (fst (runTicks (nat (timeLeft rm)) h s)) roomId = Some FINISHED"
    and B3: "map_of (intervals (fst (runTicks (nat (timeLeft rm)) h s))) h = None"
    unfolding N R using tl assms(3)
    by (simp_all add: timeLeftOf_def statusOf_def map_of_clearInterval)
  have "timeLeft rm - int N - 1 = timeLeft rm - int (Suc N)" by simp
  then have B4: "snd (runTicks (nat (timeLeft rm)) h s) =
              map (\<lambda>k. (To roomId, TimeUpdate (timeLeft rm - int k))) [1..<Suc (nat (timeLeft rm))] @
              [(To roomId, GameOver (Some w) wn (scores rm))]"
    unfolding N R by simp
  show ?thesis using A B1 B2 B3 B4 sc by simp blast
qed

text \<open>
  C5. A room created with a duration of \<open>d\<close> minutes starts its countdown at \<open>d * 60\<close>;
  it is PLAYING with its interval running as soon as its creator has been joined. Each
  period of the interval takes 1 off the countdown and emits one timeUpdate with the new
  value. The period that brings the countdown to zero also sets the room FINISHED, clears
  the interval and emits gameOver, whose winnerId is the first entry of the score table
  (in iteration order) with the maximal score: every entry before it has strictly less,
  every entry after it at most as much. Run without other events, the countdown of the
  new room emits \<open>d * 60\<close> timeUpdates, from \<open>d * 60 - 1\<close> down to 0, then gameOver (120
  periods for 2 minutes).
\<close>

theorem match_countdown:
  assumes "0 < d"
    and "createRoom socketId (DataObject customId (Some d) username) uuid1 uuid2 s = (s0, out0)"
    and "(ToSocket socketId, RoomCreated roomId) \<in> set out0"
  shows "timeLeftOf s0 roomId = Some (d * 60) \<and> statusOf s0 roomId = Some PLAYING \<and>
         (\<exists>h. map_of (intervals s0) h = Some roomId \<and>
            (\<forall>n. int n < d * 60 \<longrightarrow>
               timeLeftOf (fst (runTicks n h s0)) roomId = Some (d * 60 - int n) \<and>
               statusOf (fst (runTicks n h s0)) roomId = Some PLAYING \<and>
               map_of (intervals (fst (runTicks n h s0))) h = Some roomId \<and>
               snd (runTicks n h s0) =
                 map (\<lambda>k. (To roomId, TimeUpdate (d * 60 - int k))) [1..<Suc n]) \<and>
            timeLeftOf (fst (runTicks (nat (d * 60)) h s0)) roomId = Some 0 \<and>
            statusOf (fst (runTicks (nat (d * 60)) h s0)) roomId = Some FINISHED \<and>
            map_of (intervals (fst (runTicks (nat (d * 60)) h s0))) h = None \<and>
            (\<exists>wn. snd (runTicks (nat (d * 60)) h s0) =
                 map (\<lambda>k. (To roomId, TimeUpdate (d * 60 - int k))) [1..<Suc (nat (d * 60))] @
                 [(To roomId, GameOver (Some socketId) wn [(socketId, 0)])])) \<and>
         (\<forall>s' rm h. rooms s' roomId = Some rm \<and> map_of (intervals s') h = Some roomId \<and>
              timerInterval rm = Some h \<and> scores rm \<noteq> [] \<and> (\<forall>(k, v) \<in> set (scores rm). 0 \<le> v) \<longrightarrow>
            (1 < timeLeft rm \<longrightarrow>
               fireInterval h s' =
                 (s'\<lparr>rooms := (rooms s')(roomId \<mapsto> rm\<lparr>timeLeft := timeLeft rm - 1\<rparr>)\<rparr>,
                  [(To roomId, TimeUpdate (timeLeft rm - 1))])) \<and>
            (timeLeft rm \<le> 1 \<longrightarrow>
               (\<exists>w wn m pre post.
                  fireInterval h s' =
                    (s'\<lparr>rooms := (rooms s')(roomId \<mapsto>
                           rm\<lparr>timeLeft := timeLeft rm - 1, status := FINISHED\<rparr>),
                        intervals := clearInterval (Some h) (intervals s')\<rparr>,
                     [(To roomId, TimeUpdate (timeLeft rm - 1)),
                      (To roomId, GameOver (Some w) wn (scores rm))]) \<and>
                  map_of (clearInterval (Some h) (intervals s')) h = None \<and>
                  scores rm = pre @ (w, m) # post \<and>
                  (\<forall>(k, v) \<in> set pre. v < m) \<and> (\<forall>(k, v) \<in> set post. v \<le> m))))"
proof -
  from createRoom_ok[OF assms(2,3)] assms(1)
  obtain rm0 where c: "rooms s0 roomId = Some rm0" "timeLeft rm0 = d * 60" "status rm0 = PLAYING"
    "timerInterval rm0 = Some (nextHandle s)" "intervals s0 = (nextHandle s, roomId) # intervals s"
    "scores rm0 = [(socketId, 0)]" by auto
  let ?h = "nextHandle s"
  have m: "map_of (intervals s0) ?h = Some roomId" by (simp add: c(5))
  have sc: "scores rm0 \<noteq> []" "\<forall>(k, v) \<in> set (scores rm0). 0 \<le> v" by (simp_all add: c(6))
  have pos: "0 < timeLeft rm0" using assms(1) c(2) by simp
  note W = runTicks_whole[OF c(1) m c(4) c(3) sc pos, unfolded c(2)]
  from W obtain w wn me pre post where
    g: "snd (runTicks (nat (d * 60)) ?h s0) =
          map (\<lambda>k. (To roomId, TimeUpdate (d * 60 - int k))) [1..<Suc (nat (d * 60))] @
          [(To roomId, GameOver (Some w) wn (scores rm0))]"
    and p: "scores rm0 = pre @ (w, me) # post" by blast
  from p have "w = socketId" unfolding c(6) by (cases pre) auto
  with g have G: "\<exists>wn. snd (runTicks (nat (d * 60)) ?h s0) =
                 map (\<lambda>k. (To roomId, TimeUpdate (d * 60 - int k))) [1..<Suc (nat (d * 60))] @
                 [(To roomId, GameOver (Some socketId) wn [(socketId, 0)])]"
    unfolding c(6) by blast
  have P1: "timeLeftOf s0 roomId = Some (d * 60) \<and> statusOf s0 roomId = Some PLAYING"
    using c by (simp add: timeLeftOf_def statusOf_def)
  have P2: "\<exists>h. map_of (intervals s0) h = Some roomId \<and>
            (\<forall>n. int n < d * 60 \<longrightarrow>
               timeLeftOf (fst (runTicks n h s0)) roomId = Some (d * 60 - int n) \<and>
               statusOf (fst (runTicks n h s0)) roomId = Some PLAYING \<and>
               map_of (intervals (fst (runTicks n h s0))) h = Some roomId \<and>
               snd (runTicks n h s0) =
                 map (\<lambda>k. (To roomId, TimeUpdate (d * 60 - int k))) [1..<Suc n]) \<and>
            timeLeftOf (fst (runTicks (nat (d * 60)) h s0)) roomId = Some 0 \<and>
            statusOf (fst (runTicks (nat (d * 60)) h s0)) roomId = Some FINISHED \<and>
            map_of (intervals (fst (runTicks (nat (d * 60)) h s0))) h = None \<and>
            (\<exists>wn. snd (runTicks (nat (d * 60)) h s0) =
                 map (\<lambda>k. (To roomId, TimeUpdate (d * 60 - int k))) [1..<Suc (nat (d * 60))] @
                 [(To roomId, GameOver (Some socketId) wn [(socketId, 0)])])"
    using m W G by (intro exI[of _ ?h]) blast
  have P3: "\<And>(s'::server) (rm::room) (h::nat). rooms s' roomId = Some rm \<and> map_of (intervals s') h = Some roomId \<and>
              timerInterval rm = Some h \<and> scores rm \<noteq> [] \<and> (\<forall>(k, v) \<in> set (scores rm). 0 \<le> v) \<Longrightarrow>
            (1 < timeLeft rm \<longrightarrow>
               fireInterval h s' =
                 (s'\<lparr>rooms := (rooms s')(roomId \<mapsto> rm\<lparr>timeLeft := timeLeft rm - 1\<rparr>)\<rparr>,
                  [(To roomId, TimeUpdate (timeLeft rm - 1))])) \<and>
            (timeLeft rm \<le> 1 \<longrightarrow>
               (\<exists>w wn m pre post.
                  fireInterval h s' =
                    (s'\<lparr>rooms := (rooms s')(roomId \<mapsto>
                           rm\<lparr>timeLeft := timeLeft rm - 1, status := FINISHED\<rparr>),
                        intervals := clearInterval (Some h) (intervals s')\<rparr>,
                     [(To roomId, TimeUpdate (timeLeft rm - 1)),
                      (To roomId, GameOver (Some w) wn (scores rm))]) \<and>
                  map_of (clearInterval (Some h) (intervals s')) h = None \<and>
                  scores rm = pre @ (w, m) # post \<and>
                  (\<forall>(k, v) \<in> set pre. v < m) \<and> (\<forall>(k, v) \<in> set post. v \<le> m)))"
  proof -
    fix s' :: server and rm :: room and h :: nat
    assume a: "rooms s' roomId = Some rm \<and> map_of (intervals s') h = Some roomId \<and>
              timerInterval rm = Some h \<and> scores rm \<noteq> [] \<and> (\<forall>(k, v) \<in> set (scores rm). 0 \<le> v)"
    from a have a1: "rooms s' roomId = Some rm" and a2: "map_of (intervals s') h = Some roomId"
      and a3: "timerInterval rm = Some h" and a4: "scores rm \<noteq> []"
      and a5: "\<forall>(k, v) \<in> set (scores rm). 0 \<le> v" by auto
    have X: "1 < timeLeft rm \<longrightarrow> fireInterval h s' =
                 (s'\<lparr>rooms := (rooms s')(roomId \<mapsto> rm\<lparr>timeLeft := timeLeft rm - 1\<rparr>)\<rparr>,
                  [(To roomId, TimeUpdate (timeLeft rm - 1))])"
      using fireInterval_running[OF a1 a2] by blast
    have Y: "timeLeft rm \<le> 1 \<longrightarrow> (\<exists>w wn m pre post.
                  fireInterval h s' =
                    (s'\<lparr>rooms := (rooms s')(roomId \<mapsto>
                           rm\<lparr>timeLeft := timeLeft rm - 1, status := FINISHED\<rparr>),
                        intervals := clearInterval (Some h) (intervals s')\<rparr>,
                     [(To roomId, TimeUpdate (timeLeft rm - 1)),
                      (To roomId, GameOver (Some w) wn (scores rm))]) \<and>
                  map_of (clearInterval (Some h) (intervals s')) h = None \<and>
                  scores rm = pre @ (w, m) # post \<and>
                  (\<forall>(k, v) \<in> set pre. v < m) \<and> (\<forall>(k, v) \<in> set post. v \<le> m))"
    proof
      assume l: "timeLeft rm \<le> 1"
      from fireInterval_last[OF a1 a2 l a4 a5]
      show "\<exists>w wn m pre post.
                  fireInterval h s' =
                    (s'\<lparr>rooms := (rooms s')(roomId \<mapsto>
                           rm\<lparr>timeLeft := timeLeft rm - 1, status := FINISHED\<rparr>),
                        intervals := clearInterval (Some h) (intervals s')\<rparr>,
                     [(To roomId, TimeUpdate (timeLeft rm - 1)),
                      (To roomId, GameOver (Some w) wn (scores rm))]) \<and>
                  map_of (clearInterval (Some h) (intervals s')) h = None \<and>
                  scores rm = pre @ (w, m) # post \<and>
                  (\<forall>(k, v) \<in> set pre. v < m) \<and> (\<forall>(k, v) \<in> set post. v \<le> m)"
        unfolding a3 using map_of_clearInterval[of h "intervals s'"] by blast
    qed
    show "(1 < timeLeft rm \<longrightarrow>
               fireInterval h s' =
                 (s'\<lparr>rooms := (rooms s')(roomId \<mapsto> rm\<lparr>timeLeft := timeLeft rm - 1\<rparr>)\<rparr>,
                  [(To roomId, TimeUpdate (timeLeft rm - 1))])) \<and>
            (timeLeft rm \<le> 1 \<longrightarrow>
               (\<exists>w wn m pre post.
                  fireInterval h s' =
                    (s'\<lparr>rooms := (rooms s')(roomId \<mapsto>
                           rm\<lparr>timeLeft := timeLeft rm - 1, status := FINISHED\<rparr>),
                        intervals := clearInterval (Some h) (intervals s')\<rparr>,
                     [(To roomId, TimeUpdate (timeLeft rm - 1)),
                      (To roomId, GameOver (Some w) wn (scores rm))]) \<and>
                  map_of (clearInterval (Some h) (intervals s')) h = None \<and>
                  scores rm = pre @ (w, m) # post \<and>
                  (\<forall>(k, v) \<in> set pre. v < m) \<and> (\<forall>(k, v) \<in> set post. v \<le> m)))"
      using X Y by (rule conjI)
  qed
  show ?thesis using P1 P2 P3 by blast
qed

lemma exCreated_val:
  "exCreated =
    (\<lparr>rooms = [''AB12CD'' \<mapsto>
        \<lparr>r_id = ''AB12CD'',
         players = [''a'' \<mapsto> \<lparr>p_x = 2.5, p_y = 2.5, p_angle = 0, p_health = 100,
                                p_id = ''a'', p_isDead = False, p_name = ''Alice''\<rparr>],
         items = Map.empty, timeLeft = 120, status = PLAYING, scores = [(''a'', 0)],
         timerInterval = Some 0\<rparr>],
      intervals = [(0, ''AB12CD'')], nextHandle = 1\<rparr>,
     [(ToSocket ''a'', RoomCreated ''AB12CD''),
      (To ''AB12CD'', PlayerJoined ''a'' ''Alice''
          [''a'' \<mapsto> \<lparr>p_x = 2.5, p_y = 2.5, p_angle = 0, p_health = 100,
                                p_id = ''a'', p_isDead = False, p_name = ''Alice''\<rparr>] 120),
      (ToAll, RoomListUpdate), (ToAll, RoomListUpdate)])"
  by (simp add: exCreated_def createRoom_def emptyServer_def joinRoomInternal_def
        startGameLoop_def scoresSet_def orNumber_def orString_def Let_def)

lemma filter_timeUpdates:
  "filter isTimeUpdate (map (\<lambda>k. (To r, TimeUpdate (f k))) xs) = map (\<lambda>k. (To r, TimeUpdate (f k))) xs"
  by (induction xs) (simp_all add: isTimeUpdate_def)

lemma exTie_room:
  "rooms exTie ''R'' = Some (exRoom\<lparr>timeLeft := 1, scores := [(''a'', 1), (''b'', 1)]\<rparr>)"
  by (simp add: exTie_def)

theorem match_countdown_witness:
  "(0::int) < 2 \<and>
   exCreated = createRoom ''a'' (DataObject None (Some 2) (Some ''Alice'')) ''AB12CD'' ''EF34GH''
                 emptyServer \<and>
   (ToSocket ''a'', RoomCreated ''AB12CD'') \<in> set (snd exCreated) \<and>
   timeLeftOf (fst exCreated) ''AB12CD'' = Some 120 \<and>
   statusOf (fst exCreated) ''AB12CD'' = Some PLAYING \<and>
   timeLeftOf (fst (runTicks 119 0 (fst exCreated))) ''AB12CD'' = Some 1 \<and>
   statusOf (fst (runTicks 119 0 (fst exCreated))) ''AB12CD'' = Some PLAYING \<and>
   timeLeftOf (fst (runTicks 120 0 (fst exCreated))) ''AB12CD'' = Some 0 \<and>
   statusOf (fst (runTicks 120 0 (fst exCreated))) ''AB12CD'' = Some FINISHED \<and>
   filter isTimeUpdate (snd (runTicks 120 0 (fst exCreated))) =
     map (\<lambda>k. (To ''AB12CD'', TimeUpdate (120 - int k))) [1..<121] \<and>
   length (snd (runTicks 120 0 (fst exCreated))) = 121 \<and>
   rooms exTie ''R'' = Some (exRoom\<lparr>timeLeft := 1, scores := [(''a'', 1), (''b'', 1)]\<rparr>) \<and>
   snd (fireInterval 0 exTie) =
     [(To ''R'', TimeUpdate 0), (To ''R'', GameOver (Some ''a'') ''Alice'' [(''a'', 1), (''b'', 1)])]"
proof -
  obtain s0 out0 where r: "createRoom ''a'' (DataObject None (Some 2) (Some ''Alice'')) ''AB12CD'' ''EF34GH''
                 emptyServer = (s0, out0)"
    by (cases "createRoom ''a'' (DataObject None (Some 2) (Some ''Alice'')) ''AB12CD'' ''EF34GH'' emptyServer")
  have s0: "s0 = fst exCreated" and o0: "out0 = snd exCreated" using r by (simp_all add: exCreated_def)
  have c: "(ToSocket ''a'', RoomCreated ''AB12CD'') \<in> set out0"
    unfolding o0 exCreated_val by simp
  have iv: "intervals (fst exCreated) = [(0, ''AB12CD'')]" unfolding exCreated_val by simp
  note th = match_countdown[OF _ r c, simplified]
  from th obtain h where h: "map_of (intervals s0) h = Some ''AB12CD''"
    and run: "\<forall>n. int n < 120 \<longrightarrow>
               timeLeftOf (fst (runTicks n h s0)) ''AB12CD'' = Some (120 - int n) \<and>
               statusOf (fst (runTicks n h s0)) ''AB12CD'' = Some PLAYING"
    and fin: "timeLeftOf (fst (runTicks 120 h s0)) ''AB12CD'' = Some 0"
        "statusOf (fst (runTicks 120 h s0)) ''AB12CD'' = Some FINISHED"
    and out: "\<exists>wn. snd (runTicks 120 h s0) =
                 map (\<lambda>k. (To ''AB12CD'', TimeUpdate (120 - int k))) [1..<121] @
                 [(To ''AB12CD'', GameOver (Some ''a'') wn [(''a'', 0)])]"
    by auto
  from h have h0: "h = 0" unfolding s0 iv by (simp split: if_splits)
  from run[rule_format, of 119] have r119:
    "timeLeftOf (fst (runTicks 119 0 (fst exCreated))) ''AB12CD'' = Some 1"
    "statusOf (fst (runTicks 119 0 (fst exCreated))) ''AB12CD'' = Some PLAYING"
    unfolding h0 s0 by simp_all
  from out obtain wn where o: "snd (runTicks 120 0 (fst exCreated)) =
                 map (\<lambda>k. (To ''AB12CD'', TimeUpdate (120 - int k))) [1..<121] @
                 [(To ''AB12CD'', GameOver (Some ''a'') wn [(''a'', 0)])]"
    unfolding h0 s0 by blast
  have f: "filter isTimeUpdate (snd (runTicks 120 0 (fst exCreated))) =
     map (\<lambda>k. (To ''AB12CD'', TimeUpdate (120 - int k))) [1..<121]"
    unfolding o filter_append filter_timeUpdates by (simp add: isTimeUpdate_def)
  have l: "length (snd (runTicks 120 0 (fst exCreated))) = 121" unfolding o by simp
  have t: "snd (fireInterval 0 exTie) =
     [(To ''R'', TimeUpdate 0), (To ''R'', GameOver (Some ''a'') ''Alice'' [(''a'', 1), (''b'', 1)])]"
    by (simp add: fireInterval_def exTie_def exServer_def gameLoopTick_def finishGame_def
          exRoom_def alice_def Let_def)
  have st: "timeLeftOf (fst exCreated) ''AB12CD'' = Some 120"
      "statusOf (fst exCreated) ''AB12CD'' = Some PLAYING"
    unfolding exCreated_val by (simp_all add: timeLeftOf_def statusOf_def)
  show ?thesis
    using c r119 fin f l t st exTie_room unfolding h0 s0 o0 by (simp add: exCreated_def)
qed

section \<open>Properties of wall casting\<close>

lemma wallXOf_range: "0 \<le> wallXOf sd pos perp rx ry \<and> wallXOf sd pos perp rx ry < 1"
  unfolding wallXOf_def Let_def by (simp add: floor_correct) linarith

lemma texX_base_range:
  assumes "0 < tw" "0 \<le> f" "f < 1"
  shows "0 \<le> \<lfloor>f * real_of_int tw\<rfloor> \<and> \<lfloor>f * real_of_int tw\<rfloor> < tw"
proof -
  have "0 \<le> f * real_of_int tw" using assms by simp
  moreover have "f * real_of_int tw < real_of_int tw" using assms by simp
  ultimately show ?thesis by (simp add: floor_less_iff)
qed

lemma texXOf_cases:
  "texXOf sd pos perp rx ry tw =
     (if (sd = 0 \<and> rx > 0) \<or> (sd = 1 \<and> ry < 0)
      then tw - \<lfloor>wallXOf sd pos perp rx ry * real_of_int tw\<rfloor> - 1
      else \<lfloor>wallXOf sd pos perp rx ry * real_of_int tw\<rfloor>)"
  by (simp add: texXOf_def Let_def)

lemma wallXOf_side0: "wallXOf 0 pos perp rx ry = wallXOf 0 pos perp rx' ry"
  by (simp add: wallXOf_def)

lemma wallXOf_side1: "wallXOf (Suc 0) pos perp rx ry = wallXOf (Suc 0) pos perp rx ry'"
  by (simp add: wallXOf_def)

lemma texXOf_flip0:
  "rx \<noteq> 0 \<Longrightarrow> texXOf 0 pos perp (- rx) ry tw = tw - 1 - texXOf 0 pos perp rx ry tw"
  unfolding texXOf_cases wallXOf_side0[of pos perp "- rx" ry rx] by auto

lemma texXOf_flip1:
  "ry \<noteq> 0 \<Longrightarrow> texXOf 1 pos perp rx (- ry) tw = tw - 1 - texXOf 1 pos perp rx ry tw"
  unfolding texXOf_cases One_nat_def wallXOf_side1[of pos perp rx "- ry" ry] by auto

lemma castWallRay_texX:
  "castWallRay m pos rx ry tw = Some hit \<Longrightarrow> h_perpWallDist hit = Fin p \<Longrightarrow>
   h_texX hit = Some (texXOf (h_side hit) pos p rx ry tw)"
  by (auto simp: castWallRay_def Let_def split: option.splits prod.splits)

lemma ddaStep_side: "side (ddaStep rx ry st) = 0 \<or> side (ddaStep rx ry st) = 1"
  by (simp add: ddaStep_def)

lemma castWallsLoop_side:
  assumes "castWallsLoop m rx ry st = Some r"
  shows "side (fst r) = 0 \<or> side (fst r) = 1"
proof (rule castWallsLoop.raw_induct[where P = "\<lambda>m rx ry st r. side (fst r) = 0 \<or> side (fst r) = 1",
        OF _ assms])
  fix f :: "grid \<Rightarrow> real \<Rightarrow> real \<Rightarrow> dda \<Rightarrow> (dda \<times> int) option"
    and m rx ry st r
  assume ih: "\<And>m rx ry st r. f m rx ry st = Some r \<Longrightarrow> side (fst r) = 0 \<or> side (fst r) = 1"
    and step: "(let st' = ddaStep rx ry st
      in case cell m (mapX st') (mapY st') of
         None \<Rightarrow> f m rx ry st'
         | Some c \<Rightarrow> if 0 < c then Some (st', c) else f m rx ry st') = Some r"
  show "side (fst r) = 0 \<or> side (fst r) = 1"
  proof (cases "cell m (mapX (ddaStep rx ry st)) (mapY (ddaStep rx ry st))")
    case None
    with step have "f m rx ry (ddaStep rx ry st) = Some r" by (simp add: Let_def)
    then show ?thesis by (rule ih)
  next
    case (Some c)
    show ?thesis
    proof (cases "0 < c")
      case True
      with step Some have "r = (ddaStep rx ry st, c)" by (simp add: Let_def)
      then show ?thesis using ddaStep_side[of rx ry st] by simp
    next
      case False
      with step Some have "f m rx ry (ddaStep rx ry st) = Some r" by (simp add: Let_def)
      then show ?thesis by (rule ih)
    qed
  qed
qed

text \<open>
  C7 (amended). For a wall hit with a finite distance, texX is the floor of the
  fractional part of the intersection coordinate wallX times the texture width, mirrored
  to width - texX - 1 exactly when the hit is on an x-side and rayDirX > 0, or on a y-side
  and rayDirY < 0. It lies in 0 ..< width, and flipping the sign of the ray component
  along the hit axis (at the same wallX) maps texX to width - 1 - texX.
\<close>

theorem texX_mirrored_by_side:
  assumes "0 < tw"
  shows "(castWallRay m pos rx ry tw = Some hit \<and> h_perpWallDist hit = Fin perp \<longrightarrow>
            (h_side hit = 0 \<or> h_side hit = 1) \<and>
            h_texX hit = Some (texXOf (h_side hit) pos perp rx ry tw)) \<and>
         texXOf sd pos perp rx ry tw =
           (if (sd = 0 \<and> rx > 0) \<or> (sd = 1 \<and> ry < 0)
            then tw - \<lfloor>wallXOf sd pos perp rx ry * real_of_int tw\<rfloor> - 1
            else \<lfloor>wallXOf sd pos perp rx ry * real_of_int tw\<rfloor>) \<and>
         0 \<le> texXOf sd pos perp rx ry tw \<and> texXOf sd pos perp rx ry tw < tw \<and>
         (rx \<noteq> 0 \<longrightarrow> texXOf 0 pos perp (- rx) ry tw = tw - 1 - texXOf 0 pos perp rx ry tw) \<and>
         (ry \<noteq> 0 \<longrightarrow> texXOf 1 pos perp rx (- ry) tw = tw - 1 - texXOf 1 pos perp rx ry tw)"
proof -
  have A: "castWallRay m pos rx ry tw = Some hit \<and> h_perpWallDist hit = Fin perp \<longrightarrow>
            (h_side hit = 0 \<or> h_side hit = 1) \<and>
            h_texX hit = Some (texXOf (h_side hit) pos perp rx ry tw)"
  proof
    assume a: "castWallRay m pos rx ry tw = Some hit \<and> h_perpWallDist hit = Fin perp"
    then obtain st c where l: "castWallsLoop m rx ry (ddaInit pos rx ry) = Some (st, c)"
      and s: "h_side hit = side st"
      by (auto simp: castWallRay_def Let_def split: option.splits prod.splits)
    from castWallsLoop_side[OF l] s have "h_side hit = 0 \<or> h_side hit = 1" by simp
    then show "(h_side hit = 0 \<or> h_side hit = 1) \<and>
            h_texX hit = Some (texXOf (h_side hit) pos perp rx ry tw)"
      using castWallRay_texX a by blast
  qed
  define b where "b = \<lfloor>wallXOf sd pos perp rx ry * real_of_int tw\<rfloor>"
  have r: "0 \<le> b \<and> b < tw"
    unfolding b_def using texX_base_range[OF assms] wallXOf_range by blast
  have B: "0 \<le> texXOf sd pos perp rx ry tw \<and> texXOf sd pos perp rx ry tw < tw"
    unfolding texXOf_cases b_def[symmetric] using r by auto
  show ?thesis using A B texXOf_cases texXOf_flip0 texXOf_flip1 by blast
qed

lemma exRay_up:
  "castWallRay walledMap exPos 0.25 1 64 =
     Some exHitUp"
  unfolding castWallRay_def exHitUp_def
  apply (subst castWallsLoop.simps)
  apply (simp add: ddaInit_def exPos_def ddaStep_def js_absinv_def stepOf_def Let_def cell_def
      walledMap_def perpWallDist_def js_sub_def texXOf_def wallXOf_def)
  done

lemma exRay_down:
  "castWallRay walledMap exPos 0.25 (- 1) 64 =
     Some \<lparr>h_mapX = 1, h_mapY = 0, h_side = 1, h_wallType = 1,
           h_perpWallDist = Fin 0.5, h_texX = Some 39\<rparr>"
  unfolding castWallRay_def
  apply (subst castWallsLoop.simps)
  apply (simp add: ddaInit_def exPos_def ddaStep_def js_absinv_def stepOf_def Let_def cell_def
      walledMap_def perpWallDist_def js_sub_def texXOf_def wallXOf_def)
  done

text \<open>
  C7 as stated fails on the y-side: the ray (0.25, 1) has rayDirY > 0 and hits a y-side
  with wallX * width = 24, and texX is 24, not the mirrored 64 - 24 - 1.
\<close>

theorem texX_y_side_counterexample:
  "castWallRay walledMap exPos 0.25 1 64 = Some exHitUp \<and>
   h_side exHitUp = 1 \<and> (0::real) < 1 \<and>
   \<lfloor>wallXOf 1 exPos 0.5 0.25 1 * real_of_int 64\<rfloor> = 24 \<and>
   h_texX exHitUp = Some 24 \<and>
   h_texX exHitUp \<noteq> Some (64 - 24 - 1)"
proof -
  have "\<lfloor>wallXOf 1 exPos 0.5 0.25 1 * real_of_int 64\<rfloor> = 24"
    by (simp add: wallXOf_def exPos_def)
  moreover have "h_side exHitUp = 1" "h_texX exHitUp = Some 24"
    "h_texX exHitUp \<noteq> Some (64 - 24 - 1)"
    by (simp_all add: exHitUp_def)
  ultimately show ?thesis using exRay_up by simp
qed

theorem texX_mirrored_by_side_witness:
  "(0::int) < 64 \<and>
   castWallRay walledMap exPos 0.25 1 64 = Some exHitUp \<and>
   h_perpWallDist exHitUp = Fin 0.5 \<and> h_side exHitUp = 1 \<and>
   h_texX exHitUp = Some (texXOf 1 exPos 0.5 0.25 1 64) \<and>
   texXOf 1 exPos 0.5 0.25 1 64 = 24 \<and>
   (1::real) \<noteq> 0 \<and> texXOf 1 exPos 0.5 0.25 (- 1) 64 = 39 \<and>
   (0.25::real) \<noteq> 0 \<and>
   texXOf 0 exPos 0.5 (- 0.25) 1 64 = 64 - 1 - texXOf 0 exPos 0.5 0.25 1 64"
proof -
  have p: "h_perpWallDist exHitUp = Fin 0.5" and sd: "h_side exHitUp = 1"
    by (simp_all add: exHitUp_def)
  have pos: "(0::int) < 64" by simp
  note th = texX_mirrored_by_side[OF pos, of walledMap exPos "0.25" 1 exHitUp "0.5" 1]
  have v: "texXOf 1 exPos 0.5 0.25 1 64 = 24"
    by (simp add: texXOf_def wallXOf_def exPos_def)
  have a: "h_texX exHitUp = Some (texXOf 1 exPos 0.5 0.25 1 64)"
    using th exRay_up p sd by simp
  have b: "texXOf 1 exPos 0.5 0.25 (- 1) 64 = 39"
    using th v by simp
  have c: "texXOf 0 exPos 0.5 (- 0.25) 1 64 = 64 - 1 - texXOf 0 exPos 0.5 0.25 1 64"
    using texX_mirrored_by_side[OF pos, of walledMap exPos "0.25" 1 exHitUp "0.5" 0] by simp
  show ?thesis using exRay_up p sd a v b c by simp
qed

section \<open>Termination of the wall-casting loop\<close>

lemma castWallsLoop_result:
  assumes run: "castWallsLoop m rx ry st = Some r"
    and init: "I st"
    and keep: "\<And>s. I s \<Longrightarrow> \<not> wallAt m (mapX (ddaStep rx ry s)) (mapY (ddaStep rx ry s))
                 \<Longrightarrow> I (ddaStep rx ry s)"
  shows "\<exists>s. I s \<and> fst r = ddaStep rx ry s \<and>
             cell m (mapX (fst r)) (mapY (fst r)) = Some (snd r) \<and> 0 < snd r"
proof -
  let ?Q = "\<lambda>r. \<exists>s. I s \<and> fst r = ddaStep rx ry s \<and>
             cell m (mapX (fst r)) (mapY (fst r)) = Some (snd r) \<and> 0 < snd r"
  have "m = m \<and> rx = rx \<and> ry = ry \<and> I st \<longrightarrow> ?Q r"
  proof (rule castWallsLoop.raw_induct[where
        P = "\<lambda>m' rx' ry' st r. m' = m \<and> rx' = rx \<and> ry' = ry \<and> I st \<longrightarrow> ?Q r", OF _ run])
    fix f :: "grid \<Rightarrow> real \<Rightarrow> real \<Rightarrow> dda \<Rightarrow> (dda \<times> int) option"
      and m' rx' ry' st r
    assume ih: "\<And>m' rx' ry' st r. f m' rx' ry' st = Some r \<Longrightarrow>
                  m' = m \<and> rx' = rx \<and> ry' = ry \<and> I st \<longrightarrow> ?Q r"
      and step: "(let st' = ddaStep rx' ry' st
        in case cell m' (mapX st') (mapY st') of
           None \<Rightarrow> f m' rx' ry' st'
           | Some c \<Rightarrow> if 0 < c then Some (st', c) else f m' rx' ry' st') = Some r"
    show "m' = m \<and> rx' = rx \<and> ry' = ry \<and> I st \<longrightarrow> ?Q r"
    proof
      assume a: "m' = m \<and> rx' = rx \<and> ry' = ry \<and> I st"
      let ?st' = "ddaStep rx ry st"
      show "?Q r"
      proof (cases "wallAt m (mapX ?st') (mapY ?st')")
        case True
        then obtain c where c: "cell m (mapX ?st') (mapY ?st') = Some c" "0 < c"
          by (auto simp: wallAt_def split: option.splits)
        with step a have "r = (?st', c)" by (simp add: Let_def)
        then show ?thesis using a c by auto
      next
        case False
        with step a have "f m rx ry ?st' = Some r"
          by (auto simp: Let_def wallAt_def split: option.splits if_splits)
        moreover have "I ?st'" using keep[OF _ False] a by simp
        ultimately show ?thesis using ih by blast
      qed
    qed
  qed
  then show ?thesis using init by simp
qed

lemma castWallsLoop_hit:
  "wallAt m (mapX (ddaStep rx ry st)) (mapY (ddaStep rx ry st)) \<Longrightarrow>
   \<exists>r. castWallsLoop m rx ry st = Some r"
  by (subst castWallsLoop.simps) (auto simp: Let_def wallAt_def split: option.splits)

lemma castWallsLoop_miss:
  "\<not> wallAt m (mapX (ddaStep rx ry st)) (mapY (ddaStep rx ry st)) \<Longrightarrow>
   castWallsLoop m rx ry st = castWallsLoop m rx ry (ddaStep rx ry st)"
  by (subst castWallsLoop.simps) (auto simp: Let_def wallAt_def split: option.splits)

lemma castWallsLoop_no_wall:
  assumes "\<And>i j. \<not> wallAt m i j"
  shows "castWallsLoop m rx ry st = None"
proof (cases "castWallsLoop m rx ry st")
  case None
  then show ?thesis .
next
  case (Some r)
  from castWallsLoop_result[OF Some, of "\<lambda>s. True"]
  have "wallAt m (mapX (fst r)) (mapY (fst r))" by (auto simp: wallAt_def)
  with assms show ?thesis by simp
qed

lemma openMap_no_wall: "\<not> wallAt openMap i j"
proof -
  have "cell openMap i j = None \<or> cell openMap i j = Some 0"
  proof (cases "0 \<le> i \<and> i < 3 \<and> 0 \<le> j \<and> j < 3")
    case True
    then have "(i = 0 \<or> i = 1 \<or> i = 2) \<and> (j = 0 \<or> j = 1 \<or> j = 2)" by auto
    then show ?thesis by (auto simp: cell_def openMap_def)
  next
    case False
    then show ?thesis by (auto simp: cell_def openMap_def Let_def nth_Cons' split: if_splits)
  qed
  then show ?thesis by (auto simp: wallAt_def)
qed

lemma distOk_scale:
  assumes "if r = 0 then 0 < c else (if b then 0 < c else 0 \<le> c)"
  shows "distOk b r (js_scale c (js_absinv r))"
proof (cases "r = 0")
  case True
  then show ?thesis using assms by (simp add: js_absinv_def distOk_def)
next
  case False
  then have "0 < \<bar>1 / r\<bar>" by simp
  then have "(0 < c \<longrightarrow> 0 < c * \<bar>1 / r\<bar>) \<and> (0 \<le> c \<longrightarrow> 0 \<le> c * \<bar>1 / r\<bar>)"
    by (metis mult_pos_pos mult_nonneg_nonneg less_imp_le)
  then show ?thesis using assms False by (simp add: js_absinv_def distOk_def split: if_splits)
qed

lemma distOk_init_x:
  assumes "b \<longrightarrow> rx \<ge> 0 \<or> v_x pos \<noteq> real_of_int \<lfloor>v_x pos\<rfloor>"
  shows "distOk b rx (sideDistX (ddaInit pos rx ry))"
proof -
  have a: "0 \<le> v_x pos - real_of_int \<lfloor>v_x pos\<rfloor>" by simp
  have a': "v_x pos \<noteq> real_of_int \<lfloor>v_x pos\<rfloor> \<Longrightarrow> 0 < v_x pos - real_of_int \<lfloor>v_x pos\<rfloor>"
    using a by linarith
  have c: "0 < real_of_int \<lfloor>v_x pos\<rfloor> + 1.0 - v_x pos" by simp
  show ?thesis
  proof (cases "rx < 0")
    case True
    then have "sideDistX (ddaInit pos rx ry) =
       js_scale (v_x pos - real_of_int \<lfloor>v_x pos\<rfloor>) (js_absinv rx)"
      by (simp add: ddaInit_def Let_def)
    moreover have "if rx = 0 then 0 < v_x pos - real_of_int \<lfloor>v_x pos\<rfloor>
       else (if b then 0 < v_x pos - real_of_int \<lfloor>v_x pos\<rfloor>
             else 0 \<le> v_x pos - real_of_int \<lfloor>v_x pos\<rfloor>)"
      using True assms a a' by auto
    ultimately show ?thesis using distOk_scale by metis
  next
    case False
    then have "sideDistX (ddaInit pos rx ry) =
       js_scale (real_of_int \<lfloor>v_x pos\<rfloor> + 1.0 - v_x pos) (js_absinv rx)"
      by (simp add: ddaInit_def Let_def)
    moreover have "if rx = 0 then 0 < real_of_int \<lfloor>v_x pos\<rfloor> + 1.0 - v_x pos
       else (if b then 0 < real_of_int \<lfloor>v_x pos\<rfloor> + 1.0 - v_x pos
             else 0 \<le> real_of_int \<lfloor>v_x pos\<rfloor> + 1.0 - v_x pos)"
      using c by auto
    ultimately show ?thesis using distOk_scale by metis
  qed
qed

lemma distOk_init_y:
  assumes "b \<longrightarrow> ry \<ge> 0 \<or> v_y pos \<noteq> real_of_int \<lfloor>v_y pos\<rfloor>"
  shows "distOk b ry (sideDistY (ddaInit pos rx ry))"
proof -
  have a: "0 \<le> v_y pos - real_of_int \<lfloor>v_y pos\<rfloor>" by simp
  have a': "v_y pos \<noteq> real_of_int \<lfloor>v_y pos\<rfloor> \<Longrightarrow> 0 < v_y pos - real_of_int \<lfloor>v_y pos\<rfloor>"
    using a by linarith
  have c: "0 < real_of_int \<lfloor>v_y pos\<rfloor> + 1.0 - v_y pos" by simp
  show ?thesis
  proof (cases "ry < 0")
    case True
    then have "sideDistY (ddaInit pos rx ry) =
       js_scale (v_y pos - real_of_int \<lfloor>v_y pos\<rfloor>) (js_absinv ry)"
      by (simp add: ddaInit_def Let_def)
    moreover have "if ry = 0 then 0 < v_y pos - real_of_int \<lfloor>v_y pos\<rfloor>
       else (if b then 0 < v_y pos - real_of_int \<lfloor>v_y pos\<rfloor>
             else 0 \<le> v_y pos - real_of_int \<lfloor>v_y pos\<rfloor>)"
      using True assms a a' by auto
    ultimately show ?thesis using distOk_scale by metis
  next
    case False
    then have "sideDistY (ddaInit pos rx ry) =
       js_scale (real_of_int \<lfloor>v_y pos\<rfloor> + 1.0 - v_y pos) (js_absinv ry)"
      by (simp add: ddaInit_def Let_def)
    moreover have "if ry = 0 then 0 < real_of_int \<lfloor>v_y pos\<rfloor> + 1.0 - v_y pos
       else (if b then 0 < real_of_int \<lfloor>v_y pos\<rfloor> + 1.0 - v_y pos
             else 0 \<le> real_of_int \<lfloor>v_y pos\<rfloor> + 1.0 - v_y pos)"
      using c by auto
    ultimately show ?thesis using distOk_scale by metis
  qed
qed

lemma distOk_add: "distOk b rc d \<Longrightarrow> distOk b rc (js_add d (js_absinv rc))"
  by (cases d) (auto simp: distOk_def js_absinv_def intro: add_pos_pos add_nonneg_nonneg)

lemma distOk_step:
  assumes "distOk b rx (sideDistX s)" "distOk b ry (sideDistY s)"
  shows "distOk b rx (sideDistX (ddaStep rx ry s)) \<and> distOk b ry (sideDistY (ddaStep rx ry s))"
  using assms distOk_add by (simp add: ddaStep_def)

lemma perp_after_step:
  assumes "distOk b rx (sideDistX s)" "distOk b ry (sideDistY s)" "rx \<noteq> 0 \<or> ry \<noteq> 0"
  shows "\<exists>p. perpWallDist rx ry (ddaStep rx ry s) = Fin p \<and> (if b then 0 < p else 0 \<le> p)"
proof (cases "js_less (sideDistX s) (sideDistY s)")
  case True
  then obtain a where a: "sideDistX s = Fin a" using assms(1)
    by (cases "sideDistX s"; cases "sideDistY s") (auto simp: distOk_def)
  with assms(1) have rx: "rx \<noteq> 0" and pa: "if b then 0 < a else 0 \<le> a"
    by (auto simp: distOk_def)
  have "perpWallDist rx ry (ddaStep rx ry s) = Fin a"
    using True a rx by (simp add: perpWallDist_def ddaStep_def js_sub_def js_absinv_def)
  then show ?thesis using pa by blast
next
  case False
  have "\<exists>c. sideDistY s = Fin c"
  proof (cases "sideDistY s")
    case PInf
    with assms(2) have "ry = 0" by (simp add: distOk_def)
    with assms(3) have "rx \<noteq> 0" by simp
    with assms(1) obtain a where "sideDistX s = Fin a"
      by (cases "sideDistX s") (auto simp: distOk_def)
    with PInf False show ?thesis by simp
  qed (use assms(2) in \<open>auto simp: distOk_def\<close>)
  then obtain c where c: "sideDistY s = Fin c" by blast
  with assms(2) have ry: "ry \<noteq> 0" and pc: "if b then 0 < c else 0 \<le> c"
    by (auto simp: distOk_def)
  have "perpWallDist rx ry (ddaStep rx ry s) = Fin c"
    using False c ry by (simp add: perpWallDist_def ddaStep_def js_sub_def js_absinv_def)
  then show ?thesis using pc by blast
qed

lemma ddaStep_moves:
  "(mapX (ddaStep rx ry st) = mapX st + stepOf rx \<and> mapY (ddaStep rx ry st) = mapY st) \<or>
   (mapX (ddaStep rx ry st) = mapX st \<and> mapY (ddaStep rx ry st) = mapY st + stepOf ry)"
  by (simp add: ddaStep_def)

lemma cellsLeft_step:
  assumes "0 < mapX st" "mapX st < W - 1" "0 < mapY st" "mapY st < H - 1"
  shows "cellsLeft W H rx ry (ddaStep rx ry st) < cellsLeft W H rx ry st \<and>
         0 \<le> mapX (ddaStep rx ry st) \<and> mapX (ddaStep rx ry st) < W \<and>
         0 \<le> mapY (ddaStep rx ry st) \<and> mapY (ddaStep rx ry st) < H"
  using ddaStep_moves[of rx ry st] assms
  by (auto simp: cellsLeft_def stepOf_def split: if_splits)

lemma castWallsLoop_terminates:
  assumes border: "\<And>i j. 0 \<le> i \<Longrightarrow> i < W \<Longrightarrow> 0 \<le> j \<Longrightarrow> j < H \<Longrightarrow>
                      i = 0 \<or> i = W - 1 \<or> j = 0 \<or> j = H - 1 \<Longrightarrow> wallAt m i j"
  shows "0 < mapX st \<Longrightarrow> mapX st < W - 1 \<Longrightarrow> 0 < mapY st \<Longrightarrow> mapY st < H - 1 \<Longrightarrow>
         \<exists>r. castWallsLoop m rx ry st = Some r"
proof (induction "cellsLeft W H rx ry st" arbitrary: st rule: less_induct)
  case less
  let ?st' = "ddaStep rx ry st"
  note b = cellsLeft_step[OF less.prems, of rx ry]
  show ?case
  proof (cases "wallAt m (mapX ?st') (mapY ?st')")
    case True
    then show ?thesis by (rule castWallsLoop_hit)
  next
    case False
    with border b have "\<not> (mapX ?st' = 0 \<or> mapX ?st' = W - 1 \<or> mapY ?st' = 0 \<or> mapY ?st' = H - 1)"
      by blast
    with b have i: "0 < mapX ?st'" "mapX ?st' < W - 1" "0 < mapY ?st'" "mapY ?st' < H - 1"
      by auto
    from b have "cellsLeft W H rx ry ?st' < cellsLeft W H rx ry st" by simp
    from less.hyps[OF this i] show ?thesis using castWallsLoop_miss[OF False] by simp
  qed
qed

text \<open>
  C2 (amended). castWalls treats a grid index outside the map as an empty cell (no hit).
  If the map has walls on the whole outermost ring of a box of W by H cells, the camera
  is in a cell strictly inside that ring and the ray direction is not the zero vector, the
  DDA loop exits with a hit on a wall cell of the box, and the perpendicular wall distance
  is finite and not negative; it is positive unless the camera stands exactly on a grid
  line towards which the ray steps backwards (an integer coordinate with a negative ray
  component on that axis).
\<close>

theorem castWalls_hits_in_walled_grid:
  assumes border: "\<forall>i j. 0 \<le> i \<and> i < W \<and> 0 \<le> j \<and> j < H \<and>
                      (i = 0 \<or> i = W - 1 \<or> j = 0 \<or> j = H - 1) \<longrightarrow> wallAt m i j"
    and cam: "0 < \<lfloor>v_x pos\<rfloor> \<and> \<lfloor>v_x pos\<rfloor> < W - 1 \<and> 0 < \<lfloor>v_y pos\<rfloor> \<and> \<lfloor>v_y pos\<rfloor> < H - 1"
    and dir: "rayDirX \<noteq> 0 \<or> rayDirY \<noteq> 0"
  shows "(\<exists>hit p. castWallRay m pos rayDirX rayDirY tw = Some hit \<and>
            0 \<le> h_mapX hit \<and> h_mapX hit < W \<and> 0 \<le> h_mapY hit \<and> h_mapY hit < H \<and>
            cell m (h_mapX hit) (h_mapY hit) = Some (h_wallType hit) \<and> 0 < h_wallType hit \<and>
            h_perpWallDist hit = Fin p \<and> 0 \<le> p \<and>
            ((rayDirX \<ge> 0 \<or> v_x pos \<noteq> real_of_int \<lfloor>v_x pos\<rfloor>) \<and>
             (rayDirY \<ge> 0 \<or> v_y pos \<noteq> real_of_int \<lfloor>v_y pos\<rfloor>) \<longrightarrow> 0 < p)) \<and>
         (\<forall>i j. cell m i j = None \<longrightarrow> \<not> wallAt m i j)"
proof -
  let ?st0 = "ddaInit pos rayDirX rayDirY"
  define b where "b \<longleftrightarrow> (rayDirX \<ge> 0 \<or> v_x pos \<noteq> real_of_int \<lfloor>v_x pos\<rfloor>) \<and>
             (rayDirY \<ge> 0 \<or> v_y pos \<noteq> real_of_int \<lfloor>v_y pos\<rfloor>)"
  define I where "I = (\<lambda>s::dda. 0 < mapX s \<and> mapX s < W - 1 \<and> 0 < mapY s \<and> mapY s < H - 1 \<and>
        distOk b rayDirX (sideDistX s) \<and> distOk b rayDirY (sideDistY s))"
  have bd: "\<And>i j. 0 \<le> i \<Longrightarrow> i < W \<Longrightarrow> 0 \<le> j \<Longrightarrow> j < H \<Longrightarrow>
                      i = 0 \<or> i = W - 1 \<or> j = 0 \<or> j = H - 1 \<Longrightarrow> wallAt m i j"
    using border by blast
  have m0: "mapX ?st0 = \<lfloor>v_x pos\<rfloor>" "mapY ?st0 = \<lfloor>v_y pos\<rfloor>"
    by (simp_all add: ddaInit_def Let_def)
  have i0: "0 < mapX ?st0" "mapX ?st0 < W - 1" "0 < mapY ?st0" "mapY ?st0 < H - 1"
    using cam m0 by simp_all
  have I0: "I ?st0"
    unfolding I_def using i0 distOk_init_x[of b rayDirX pos rayDirY]
      distOk_init_y[of b rayDirY pos rayDirX] by (simp add: b_def)
  have keep: "\<And>s. I s \<Longrightarrow>
      \<not> wallAt m (mapX (ddaStep rayDirX rayDirY s)) (mapY (ddaStep rayDirX rayDirY s)) \<Longrightarrow>
      I (ddaStep rayDirX rayDirY s)"
  proof -
    fix s :: dda
    let ?s' = "ddaStep rayDirX rayDirY s"
    assume a: "I s" and nw: "\<not> wallAt m (mapX ?s') (mapY ?s')"
    from a have int: "0 < mapX s" "mapX s < W - 1" "0 < mapY s" "mapY s < H - 1"
      by (simp_all add: I_def)
    note c = cellsLeft_step[OF int, of rayDirX rayDirY]
    with nw bd have "\<not> (mapX ?s' = 0 \<or> mapX ?s' = W - 1 \<or> mapY ?s' = 0 \<or> mapY ?s' = H - 1)"
      by blast
    with c have "0 < mapX ?s' \<and> mapX ?s' < W - 1 \<and> 0 < mapY ?s' \<and> mapY ?s' < H - 1" by auto
    moreover have "distOk b rayDirX (sideDistX ?s') \<and> distOk b rayDirY (sideDistY ?s')"
      using a distOk_step unfolding I_def by blast
    ultimately show "I ?s'" unfolding I_def by simp
  qed
  have "\<exists>r. castWallsLoop m rayDirX rayDirY ?st0 = Some r"
  proof (rule castWallsLoop_terminates[where W = W and H = H])
    show "\<And>i j. 0 \<le> i \<Longrightarrow> i < W \<Longrightarrow> 0 \<le> j \<Longrightarrow> j < H \<Longrightarrow>
                      i = 0 \<or> i = W - 1 \<or> j = 0 \<or> j = H - 1 \<Longrightarrow> wallAt m i j"
      by (rule bd)
  qed (rule i0)+
  then obtain r where r: "castWallsLoop m rayDirX rayDirY ?st0 = Some r" by blast
  from castWallsLoop_result[OF r, of I, OF I0 keep]
  obtain s where s: "I s" "fst r = ddaStep rayDirX rayDirY s"
    "cell m (mapX (fst r)) (mapY (fst r)) = Some (snd r)" "0 < snd r" by blast
  from s(1) have int: "0 < mapX s" "mapX s < W - 1" "0 < mapY s" "mapY s < H - 1"
    and dk: "distOk b rayDirX (sideDistX s)" "distOk b rayDirY (sideDistY s)"
    by (simp_all add: I_def)
  from cellsLeft_step[OF int, of rayDirX rayDirY] s(2)
  have box: "0 \<le> mapX (fst r)" "mapX (fst r) < W" "0 \<le> mapY (fst r)" "mapY (fst r) < H"
    by simp_all
  from perp_after_step[OF dk dir] s(2)
  obtain p where p: "perpWallDist rayDirX rayDirY (fst r) = Fin p" "if b then 0 < p else 0 \<le> p"
    by auto
  let ?hit = "\<lparr>h_mapX = mapX (fst r), h_mapY = mapY (fst r), h_side = side (fst r),
                h_wallType = snd r, h_perpWallDist = Fin p,
                h_texX = Some (texXOf (side (fst r)) pos p rayDirX rayDirY tw)\<rparr>"
  have "castWallRay m pos rayDirX rayDirY tw = Some ?hit"
    using r p(1) by (cases r) (simp add: castWallRay_def Let_def)
  moreover have "0 \<le> p" "b \<longrightarrow> 0 < p" using p(2) by (auto split: if_splits)
  ultimately have A: "\<exists>hit p. castWallRay m pos rayDirX rayDirY tw = Some hit \<and>
            0 \<le> h_mapX hit \<and> h_mapX hit < W \<and> 0 \<le> h_mapY hit \<and> h_mapY hit < H \<and>
            cell m (h_mapX hit) (h_mapY hit) = Some (h_wallType hit) \<and> 0 < h_wallType hit \<and>
            h_perpWallDist hit = Fin p \<and> 0 \<le> p \<and>
            ((rayDirX \<ge> 0 \<or> v_x pos \<noteq> real_of_int \<lfloor>v_x pos\<rfloor>) \<and>
             (rayDirY \<ge> 0 \<or> v_y pos \<noteq> real_of_int \<lfloor>v_y pos\<rfloor>) \<longrightarrow> 0 < p)"
    using box s(3,4) unfolding b_def
    by (intro exI[of _ ?hit] exI[of _ p]) simp
  have B: "\<forall>i j. cell m i j = None \<longrightarrow> \<not> wallAt m i j" by (simp add: wallAt_def)
  show ?thesis using A B by (rule conjI)
qed

lemma walledMap_border:
  "\<forall>i j. 0 \<le> i \<and> i < 3 \<and> 0 \<le> j \<and> j < 3 \<and> (i = 0 \<or> i = 3 - 1 \<or> j = 0 \<or> j = 3 - 1)
      \<longrightarrow> wallAt walledMap i j"
proof (intro allI impI)
  fix i j :: int
  assume a: "0 \<le> i \<and> i < 3 \<and> 0 \<le> j \<and> j < 3 \<and> (i = 0 \<or> i = 3 - 1 \<or> j = 0 \<or> j = 3 - 1)"
  then have "(i = 0 \<or> i = 1 \<or> i = 2) \<and> (j = 0 \<or> j = 1 \<or> j = 2)" by auto
  with a show "wallAt walledMap i j"
    by (auto simp: wallAt_def cell_def walledMap_def)
qed

text \<open>
  C2 as stated fails. On the open map the camera is inside the grid and the ray (1, 0)
  is not zero, but cells outside the map are not hits and the loop never exits. On the
  walled map, a camera at x = 1 exactly looking along (-1, 0) hits the wall at
  perpendicular distance 0.
\<close>

theorem castWalls_open_map_counterexample:
  "cell openMap \<lfloor>1.5 :: real\<rfloor> \<lfloor>1.5 :: real\<rfloor> = Some 0 \<and>
   cell openMap 3 1 = None \<and> \<not> wallAt openMap 3 1 \<and>
   castWallsLoop openMap 1 0 (ddaInit \<lparr>v_x = 1.5, v_y = 1.5\<rparr> 1 0) = None \<and>
   castWallRay openMap \<lparr>v_x = 1.5, v_y = 1.5\<rparr> 1 0 64 = None \<and>
   cell walledMap \<lfloor>1 :: real\<rfloor> \<lfloor>1.5 :: real\<rfloor> = Some 0 \<and>
   castWallRay walledMap \<lparr>v_x = 1, v_y = 1.5\<rparr> (- 1) 0 64 =
     Some \<lparr>h_mapX = 0, h_mapY = 1, h_side = 0, h_wallType = 1,
           h_perpWallDist = Fin 0, h_texX = Some 32\<rparr>"
proof -
  have l: "castWallsLoop openMap 1 0 (ddaInit \<lparr>v_x = 1.5, v_y = 1.5\<rparr> 1 0) = None"
    by (rule castWallsLoop_no_wall) (rule openMap_no_wall)
  then have r: "castWallRay openMap \<lparr>v_x = 1.5, v_y = 1.5\<rparr> 1 0 64 = None"
    by (simp add: castWallRay_def)
  have c: "cell openMap \<lfloor>1.5 :: real\<rfloor> \<lfloor>1.5 :: real\<rfloor> = Some 0" "cell openMap 3 1 = None"
    "cell walledMap \<lfloor>1 :: real\<rfloor> \<lfloor>1.5 :: real\<rfloor> = Some 0"
    by (simp_all add: cell_def openMap_def walledMap_def)
  have z: "castWallRay walledMap \<lparr>v_x = 1, v_y = 1.5\<rparr> (- 1) 0 64 =
     Some \<lparr>h_mapX = 0, h_mapY = 1, h_side = 0, h_wallType = 1,
           h_perpWallDist = Fin 0, h_texX = Some 32\<rparr>"
    unfolding castWallRay_def
    apply (subst castWallsLoop.simps)
    apply (simp add: ddaInit_def ddaStep_def js_absinv_def stepOf_def Let_def cell_def
      walledMap_def perpWallDist_def js_sub_def texXOf_def wallXOf_def)
    done
  show ?thesis using l r c z openMap_no_wall by simp
qed

theorem castWalls_hits_in_walled_grid_witness:
  "wallAt walledMap 0 0 \<and> wallAt walledMap 0 1 \<and> wallAt walledMap 0 2 \<and>
   wallAt walledMap 1 0 \<and> wallAt walledMap 1 2 \<and>
   wallAt walledMap 2 0 \<and> wallAt walledMap 2 1 \<and> wallAt walledMap 2 2 \<and>
   0 < \<lfloor>v_x exPos\<rfloor> \<and> \<lfloor>v_x exPos\<rfloor> < 3 - 1 \<and> 0 < \<lfloor>v_y exPos\<rfloor> \<and> \<lfloor>v_y exPos\<rfloor> < 3 - 1 \<and>
   (0.25::real) \<noteq> 0 \<and>
   castWallRay walledMap exPos 0.25 1 64 = Some exHitUp \<and>
   cell walledMap (h_mapX exHitUp) (h_mapY exHitUp) = Some (h_wallType exHitUp) \<and>
   0 < h_wallType exHitUp \<and>
   h_perpWallDist exHitUp = Fin 0.5 \<and> (0::real) < 0.5"
proof -
  have cam: "0 < \<lfloor>v_x exPos\<rfloor> \<and> \<lfloor>v_x exPos\<rfloor> < 3 - 1 \<and> 0 < \<lfloor>v_y exPos\<rfloor> \<and> \<lfloor>v_y exPos\<rfloor> < 3 - 1"
    by (simp add: exPos_def)
  have dir: "(0.25::real) \<noteq> 0 \<or> (1::real) \<noteq> 0" by simp
  from castWalls_hits_in_walled_grid[OF walledMap_border cam dir, of 64]
  obtain hit p where h: "castWallRay walledMap exPos 0.25 1 64 = Some hit"
    "cell walledMap (h_mapX hit) (h_mapY hit) = Some (h_wallType hit)" "0 < h_wallType hit"
    "h_perpWallDist hit = Fin p" "0 \<le> p" by blast
  from h(1) exRay_up have e: "hit = exHitUp" by simp
  have p: "h_perpWallDist exHitUp = Fin 0.5" by (simp add: exHitUp_def)
  have w: "wallAt walledMap 0 0 \<and> wallAt walledMap 0 1 \<and> wallAt walledMap 0 2 \<and>
   wallAt walledMap 1 0 \<and> wallAt walledMap 1 2 \<and>
   wallAt walledMap 2 0 \<and> wallAt walledMap 2 1 \<and> wallAt walledMap 2 2"
    using walledMap_border by simp
  show ?thesis using w cam dir h(2,3) exRay_up p unfolding e by simp
qed

section \<open>Properties of sprite casting\<close>

lemma exGuard_transform: "transformOf exCam exGuard = Some (- 2, 2)"
  by (simp add: transformOf_def exCam_def exGuard_def Let_def)

lemma exGuard_proj:
  "spriteProj exCam 8 8 1 (- 2) 2 =
     \<lparr>spriteScreenX = 0, spriteHeight = 4, spriteWidth = 4, drawStartY = 2, drawEndY = 6,
      drawStartX = 0, drawEndX = 2\<rparr>"
  by (simp add: spriteProj_def exCam_def Let_def)

lemma upto_0_1: "[0 .. (1::int)] = [0, 1]"
  by (simp add: upto.simps)

lemma exGuard_columns:
  "spriteColumns exCam exTextures exZ 8 8 1 exGuard =
     [\<lparr>d_stripe = 1, d_texX = 48, d_y = 2, d_h = 4\<rparr>]"
  unfolding spriteColumns_def exGuard_transform
  by (simp add: exGuard_proj exTextures_def exGuard_def Let_def upto_0_1 stripeVisible_def
       zAt_def exZ_def)

lemma spriteColumns_behind:
  "transformOf player sp = Some (tX, D) \<Longrightarrow> D \<le> 0 \<Longrightarrow>
   spriteColumns player textures zBuffer w h zoom sp = []"
  by (simp add: spriteColumns_def)

lemma drawEndX_le: "drawEndX (spriteProj player w h zoom tX D) \<le> real_of_int w - 1"
  by (simp add: spriteProj_def Let_def)

lemma drawStartX_ge: "0 \<le> drawStartX (spriteProj player w h zoom tX D)"
  by (simp add: spriteProj_def Let_def)

lemma spriteColumns_stripes:
  assumes "transformOf player sp = Some (tX, D)" and "0 < D"
    and "textures (sp_textureId sp) = Some tw"
  shows "stripe \<in> d_stripe ` set (spriteColumns player textures zBuffer w h zoom sp) \<longleftrightarrow>
         \<lfloor>drawStartX (spriteProj player w h zoom tX D)\<rfloor> \<le> stripe \<and>
         stripe < \<lfloor>drawEndX (spriteProj player w h zoom tX D)\<rfloor> \<and>
         stripeVisible D w zBuffer stripe \<and>
         max 0 (drawStartY (spriteProj player w h zoom tX D))
           < min (real_of_int h - 1) (drawEndY (spriteProj player w h zoom tX D))"
  using assms
  by (auto simp: spriteColumns_def Let_def image_iff split: if_splits)

text \<open>
  C8 (amended). A sprite whose transformed depth D is not positive is skipped entirely.
  For a sprite with positive D and a texture, every column of its stripe loop lies in
  0 .. w - 2, and the stripe of such a column is drawn if and only if D is strictly less
  than the z-buffer value Z of the column, the column is not column 0, and the sprite's
  vertical span clipped to the screen is not empty.
\<close>

theorem sprite_stripe_drawn_iff:
  "(transformOf player sp = Some (tX, D) \<and> D \<le> 0 \<longrightarrow>
      spriteColumns player textures zBuffer w h zoom sp = []) \<and>
   (transformOf player sp = Some (tX, D) \<and> 0 < D \<and>
    textures (sp_textureId sp) = Some tw \<and> pr = spriteProj player w h zoom tX D \<and>
    \<lfloor>drawStartX pr\<rfloor> \<le> stripe \<and> stripe < \<lfloor>drawEndX pr\<rfloor> \<and>
    length zBuffer = nat w \<and> zBuffer ! nat stripe = Fin Z \<longrightarrow>
      0 \<le> stripe \<and> stripe < w - 1 \<and>
      (stripe \<in> d_stripe ` set (spriteColumns player textures zBuffer w h zoom sp) \<longleftrightarrow>
         D < Z \<and> 0 < stripe \<and> max 0 (drawStartY pr) < min (real_of_int h - 1) (drawEndY pr)))"
proof (rule conjI; rule impI)
  assume "transformOf player sp = Some (tX, D) \<and> D \<le> 0"
  then show "spriteColumns player textures zBuffer w h zoom sp = []"
    using spriteColumns_behind by blast
next
  assume a: "transformOf player sp = Some (tX, D) \<and> 0 < D \<and>
    textures (sp_textureId sp) = Some tw \<and> pr = spriteProj player w h zoom tX D \<and>
    \<lfloor>drawStartX pr\<rfloor> \<le> stripe \<and> stripe < \<lfloor>drawEndX pr\<rfloor> \<and>
    length zBuffer = nat w \<and> zBuffer ! nat stripe = Fin Z"
  then have a1: "transformOf player sp = Some (tX, D)" and a2: "0 < D"
    and a3: "textures (sp_textureId sp) = Some tw" and a4: "pr = spriteProj player w h zoom tX D"
    and a5: "\<lfloor>drawStartX pr\<rfloor> \<le> stripe" and a6: "stripe < \<lfloor>drawEndX pr\<rfloor>"
    and a7: "length zBuffer = nat w" and a8: "zBuffer ! nat stripe = Fin Z" by blast+
  have "0 \<le> drawStartX pr" unfolding a4 by (rule drawStartX_ge)
  then have "0 \<le> \<lfloor>drawStartX pr\<rfloor>" by (simp only: zero_le_floor)
  with a5 have lo: "0 \<le> stripe" by linarith
  have "drawEndX pr \<le> real_of_int w - 1" unfolding a4 by (rule drawEndX_le)
  then have "\<lfloor>drawEndX pr\<rfloor> \<le> w - 1"
    using of_int_floor_le[of "drawEndX pr"] by linarith
  with a6 have hi: "stripe < w - 1" by linarith
  have z: "zAt zBuffer stripe = Fin Z" using lo hi a7 a8 by (simp add: zAt_def)
  have v: "stripeVisible D w zBuffer stripe \<longleftrightarrow> D < Z \<and> 0 < stripe"
    using a2 hi z by (auto simp: stripeVisible_def)
  have "stripe \<in> d_stripe ` set (spriteColumns player textures zBuffer w h zoom sp) \<longleftrightarrow>
            D < Z \<and> 0 < stripe \<and> max 0 (drawStartY pr) < min (real_of_int h - 1) (drawEndY pr)"
    unfolding spriteColumns_stripes[where textures = textures and tw = tw, OF a1 a2 a3]
      a4[symmetric] using a5 a6 v by simp
  then show "0 \<le> stripe \<and> stripe < w - 1 \<and>
      (stripe \<in> d_stripe ` set (spriteColumns player textures zBuffer w h zoom sp) \<longleftrightarrow>
         D < Z \<and> 0 < stripe \<and> max 0 (drawStartY pr) < min (real_of_int h - 1) (drawEndY pr))"
    using lo hi by simp
qed

lemma exGuard_pitched:
  "spriteColumns (exCam\<lparr>pl_pitch := 100\<rparr>) exTextures exZ 8 8 1 exGuard = []"
proof -
  have t: "transformOf (exCam\<lparr>pl_pitch := 100\<rparr>) exGuard = Some (- 2, 2)"
    by (simp add: transformOf_def exCam_def exGuard_def Let_def)
  have p: "spriteProj (exCam\<lparr>pl_pitch := 100\<rparr>) 8 8 1 (- 2) 2 =
     \<lparr>spriteScreenX = 0, spriteHeight = 4, spriteWidth = 4, drawStartY = 102, drawEndY = 106,
      drawStartX = 0, drawEndX = 2\<rparr>"
    by (simp add: spriteProj_def exCam_def Let_def)
  show ?thesis
    unfolding spriteColumns_def t
    by (simp add: p exTextures_def exGuard_def Let_def upto_0_1 stripeVisible_def zAt_def exZ_def)
qed

text \<open>
  C8 as stated fails at screen column 0: the guard's stripe loop covers columns 0 and 1,
  its depth 2 is less than the wall distance 5 in both, and only column 1 is drawn. With
  the view pitched by 100 pixels the sprite's vertical span is below the screen and no
  column is drawn at all.
\<close>

theorem sprite_column_zero_counterexample:
  "transformOf exCam exGuard = Some (- 2, 2) \<and> (0::real) < 2 \<and>
   exTextures (sp_textureId exGuard) = Some 64 \<and>
   \<lfloor>drawStartX (spriteProj exCam 8 8 1 (- 2) 2)\<rfloor> = 0 \<and>
   \<lfloor>drawEndX (spriteProj exCam 8 8 1 (- 2) 2)\<rfloor> = 2 \<and>
   zAt exZ 0 = Fin 5 \<and> (2::real) < 5 \<and>
   spriteColumns exCam exTextures exZ 8 8 1 exGuard =
     [\<lparr>d_stripe = 1, d_texX = 48, d_y = 2, d_h = 4\<rparr>] \<and>
   0 \<notin> d_stripe ` set (spriteColumns exCam exTextures exZ 8 8 1 exGuard) \<and>
   spriteColumns (exCam\<lparr>pl_pitch := 100\<rparr>) exTextures exZ 8 8 1 exGuard = []"
proof -
  have "exTextures (sp_textureId exGuard) = Some 64" by (simp add: exTextures_def exGuard_def)
  moreover have "zAt exZ 0 = Fin 5" by (simp add: zAt_def exZ_def)
  ultimately show ?thesis
    unfolding exGuard_columns exGuard_proj exGuard_pitched using exGuard_transform by simp
qed

theorem sprite_stripe_drawn_iff_witness:
  "transformOf exCam exGuard = Some (- 2, 2) \<and> (0::real) < 2 \<and>
   exTextures (sp_textureId exGuard) = Some 64 \<and>
   \<lfloor>drawStartX (spriteProj exCam 8 8 1 (- 2) 2)\<rfloor> \<le> 1 \<and>
   1 < \<lfloor>drawEndX (spriteProj exCam 8 8 1 (- 2) 2)\<rfloor> \<and>
   length exZ = nat 8 \<and> exZ ! nat 1 = Fin 5 \<and>
   1 \<in> d_stripe ` set (spriteColumns exCam exTextures exZ 8 8 1 exGuard) \<and>
   (2::real) < 5 \<and>
   transformOf exCam (exGuard\<lparr>sp_pos := \<lparr>v_x = 0, v_y = 2\<rparr>\<rparr>) = Some (0, - 2) \<and>
   (- 2 :: real) \<le> 0 \<and>
   spriteColumns exCam exTextures exZ 8 8 1 (exGuard\<lparr>sp_pos := \<lparr>v_x = 0, v_y = 2\<rparr>\<rparr>) = []"
proof -
  have t: "exTextures (sp_textureId exGuard) = Some 64" by (simp add: exTextures_def exGuard_def)
  have z: "length exZ = nat 8" "exZ ! nat 1 = Fin 5" by (simp_all add: exZ_def)
  have b: "transformOf exCam (exGuard\<lparr>sp_pos := \<lparr>v_x = 0, v_y = 2\<rparr>\<rparr>) = Some (0, - 2)"
    by (simp add: transformOf_def exCam_def exGuard_def Let_def)
  have r: "\<lfloor>drawStartX (spriteProj exCam 8 8 1 (- 2) 2)\<rfloor> \<le> 1"
    "1 < \<lfloor>drawEndX (spriteProj exCam 8 8 1 (- 2) 2)\<rfloor>"
    unfolding exGuard_proj by simp_all
  have pos: "(0::real) < 2" and neg: "(- 2 :: real) \<le> 0" by simp_all
  have A: "transformOf exCam exGuard = Some (- 2, 2) \<and> 0 < (2::real) \<and>
    exTextures (sp_textureId exGuard) = Some 64 \<and>
    spriteProj exCam 8 8 1 (- 2) 2 = spriteProj exCam 8 8 1 (- 2) 2 \<and>
    \<lfloor>drawStartX (spriteProj exCam 8 8 1 (- 2) 2)\<rfloor> \<le> 1 \<and>
    1 < \<lfloor>drawEndX (spriteProj exCam 8 8 1 (- 2) 2)\<rfloor> \<and>
    length exZ = nat 8 \<and> exZ ! nat 1 = Fin 5"
    using exGuard_transform t r z by simp
  from sprite_stripe_drawn_iff[where player = exCam and sp = exGuard and tX = "- 2" and D = 2
      and textures = exTextures and tw = 64 and pr = "spriteProj exCam 8 8 1 (- 2) 2"
      and w = 8 and h = 8 and zoom = 1 and stripe = 1 and zBuffer = exZ and Z = 5,
      THEN conjunct2, rule_format, OF A]
  have d: "1 \<in> d_stripe ` set (spriteColumns exCam exTextures exZ 8 8 1 exGuard)"
    unfolding exGuard_proj by simp
  from sprite_stripe_drawn_iff[where player = exCam
      and sp = "exGuard\<lparr>sp_pos := \<lparr>v_x = 0, v_y = 2\<rparr>\<rparr>" and tX = 0 and D = "- 2"
      and textures = exTextures and w = 8 and h = 8 and zoom = 1 and zBuffer = exZ,
      THEN conjunct1, rule_format, OF conjI[OF b neg]]
  have e: "spriteColumns exCam exTextures exZ 8 8 1 (exGuard\<lparr>sp_pos := \<lparr>v_x = 0, v_y = 2\<rparr>\<rparr>) = []" .
  show ?thesis using exGuard_transform t r z d b e by simp
qed

section \<open>Properties of the hit resolution\<close>










end
